theory Spec2Isabelle
  imports Main "HOL-Library.AList"
begin

section \<open>Python string operations used by the handler\<close>

text \<open>
  A Python \<open>str\<close> is modelled as a \<open>string\<close>, one \<open>char\<close> per character.
  \<open>str.lower\<close> is modelled on the letters \<open>A\<close> to \<open>Z\<close>; the only use of it decides
  whether the result is one of seven ASCII words.
\<close>

definition digit_char :: "nat \<Rightarrow> char" where
  "digit_char d = ''0123456789'' ! d"

text \<open>\<open>str(n)\<close> for a Python integer: decimal digits, a leading minus sign when negative.\<close>

fun str_nat :: "nat \<Rightarrow> string" where
  "str_nat n = (if n < 10 then [digit_char n] else str_nat (n div 10) @ [digit_char (n mod 10)])"

declare str_nat.simps [simp del]

definition str_int :: "int \<Rightarrow> string" where
  "str_int i = (if i < 0 then ''-'' @ str_nat (nat (- i)) else str_nat (nat i))"

definition upper_letters :: string where
  "upper_letters = ''ABCDEFGHIJKLMNOPQRSTUVWXYZ''"

definition lower_letters :: string where
  "lower_letters = ''abcdefghijklmnopqrstuvwxyz''"

definition digit_chars :: string where
  "digit_chars = ''0123456789''"

definition lower_char :: "char \<Rightarrow> char" where
  "lower_char c = (case map_of (zip upper_letters lower_letters) c of None \<Rightarrow> c | Some l \<Rightarrow> l)"

text \<open>\<open>s.lower()\<close>\<close>

definition lower :: "string \<Rightarrow> string" where
  "lower s = map lower_char s"

text \<open>
  \<open>s.rsplit(sep, 1)\<close> for a one-character separator: the text before the last
  occurrence of \<open>sep\<close> and the text after it, or \<open>[s]\<close> when \<open>sep\<close> does not occur.
  The handler reads index \<open>0\<close> (\<open>hd\<close>) and index \<open>-1\<close> (\<open>last\<close>) of the result, which is
  never empty.
\<close>

definition rsplit1 :: "char \<Rightarrow> string \<Rightarrow> string list" where
  "rsplit1 sep s =
     (if sep \<in> set s
      then [rev (drop 1 (dropWhile (\<lambda>c. c \<noteq> sep) (rev s))),
            rev (takeWhile (\<lambda>c. c \<noteq> sep) (rev s))]
      else [s])"

text \<open>\<open>sep.join(xs)\<close>\<close>

fun join :: "string \<Rightarrow> string list \<Rightarrow> string" where
  "join sep [] = []"
| "join sep [x] = x"
| "join sep (x # y # ys) = x @ sep @ join sep (y # ys)"

text \<open>
  \<open>s.split()\<close>: the maximal runs of non-whitespace characters. The ASCII characters
  Python counts as whitespace are TAB, LF, VT, FF, CR, the separators \<open>0x1c\<close> to \<open>0x1f\<close>
  and the space. The first argument of \<open>split_ws\<close> is the word read so far.
\<close>

definition is_space :: "char \<Rightarrow> bool" where
  "is_space c = (c \<in> set [CHR 0x09, CHR 0x0A, CHR 0x0B, CHR 0x0C, CHR 0x0D,
                           CHR 0x1C, CHR 0x1D, CHR 0x1E, CHR 0x1F, CHR '' ''])"

fun split_ws :: "string \<Rightarrow> string \<Rightarrow> string list" where
  "split_ws w [] = (if w = [] then [] else [w])"
| "split_ws w (c # cs) =
     (if is_space c then (if w = [] then split_ws [] cs else w # split_ws [] cs)
      else split_ws (w @ [c]) cs)"

definition split :: "string \<Rightarrow> string list" where
  "split s = split_ws [] s"

text \<open>\<open>s.strip(chars)\<close>\<close>

definition strip :: "string \<Rightarrow> string \<Rightarrow> string" where
  "strip chars s =
     rev (dropWhile (\<lambda>c. c \<in> set chars) (rev (dropWhile (\<lambda>c. c \<in> set chars) s)))"

text \<open>\<open>s.replace(old, new)\<close> for one-character \<open>old\<close> and \<open>new\<close>\<close>

definition replace :: "char \<Rightarrow> char \<Rightarrow> string \<Rightarrow> string" where
  "replace old new s = map (\<lambda>c. if c = old then new else c) s"

section \<open>\<open>werkzeug.utils.secure_filename\<close>\<close>

text \<open>
  The library function the handler calls on the part of the file name before its last
  dot, as it runs on a POSIX system (\<open>os.sep\<close> is the slash, \<open>os.path.altsep\<close> is
  \<open>None\<close>, the Windows device-name rule does not apply):
  \<^verbatim>\<open>
  filename = unicodedata.normalize("NFKD", filename)
  filename = filename.encode("ascii", "ignore").decode("ascii")
  for sep in os.sep, os.path.altsep:
      if sep:
          filename = filename.replace(sep, " ")
  filename = str(_filename_ascii_strip_re.sub("", "_".join(filename.split()))).strip("._")
  \<close>
  with \<open>_filename_ascii_strip_re = re.compile(r"[^A-Za-z0-9_.-]")\<close>.

  The first two lines depend on the Unicode character database, which is no part of the
  program: they are the parameter \<open>to_ascii\<close>, a function from text to ASCII text that
  the environment supplies. \<open>ascii_strip\<close> is the substitution of the regular expression,
  which keeps the characters of \<open>safe_chars\<close>.
\<close>

definition is_ascii :: "char \<Rightarrow> bool" where
  "is_ascii c = ((of_char c :: nat) < 128)"

definition safe_chars :: string where
  "safe_chars = upper_letters @ lower_letters @ digit_chars @ ''_.-''"

definition ascii_strip :: "string \<Rightarrow> string" where
  "ascii_strip s = filter (\<lambda>c. c \<in> set safe_chars) s"

definition secure_filename :: "(string \<Rightarrow> string) \<Rightarrow> string \<Rightarrow> string" where
  "secure_filename to_ascii filename =
     strip ''._'' (ascii_strip (join ''_'' (split (replace (CHR ''/'') (CHR '' '') (to_ascii filename)))))"

section \<open>Data model\<close>

text \<open>
  An uploaded file (\<open>werkzeug.datastructures.FileStorage\<close>): the name the client sent
  and the bytes of the part. \<open>request.files\<close> maps a form field to its file. A request
  is taken as the framework has parsed it; a request the framework itself turns away (a
  body over \<open>MAX_CONTENT_LENGTH\<close>) never becomes a value of this type.
\<close>

record file_storage =
  filename :: string
  stream :: string

record request =
  files :: "string \<rightharpoonup> file_storage"

text \<open>
  One detected box. The handler reads only \<open>int(box.cls[0])\<close>, the class id, which is the
  field kept here. \<open>names\<close> is the model's id-to-name dictionary.
\<close>

record box =
  cls :: int

record yolo =
  names :: "int \<rightharpoonup> string"

text \<open>A call into the environment either raises (with \<open>str(e)\<close>) or returns.\<close>

datatype 'a outcome = Raises string | Returns 'a

text \<open>
  A write to a path either completes, or raises with a message; in the second case the
  option tells what it left at the path: nothing new, or a (partial) file.
\<close>

datatype io_outcome = Done | Fails string "string option"

text \<open>
  What the environment does during one request: the text of \<open>uuid.uuid4()\<close>, the value of
  \<open>int(time.time())\<close>, the order in which the set of allowed extensions is iterated, the
  outcome of \<open>file.save\<close>, of \<open>model.predict\<close> (the boxes of \<open>results[0]\<close>, which may be
  \<open>None\<close>), of \<open>results[0].plot()\<close> (the annotated image), of saving that image, whether
  \<open>os.remove\<close> raises, the page \<open>render_template\<close> produces, and the function
  \<open>s \<mapsto> unicodedata.normalize("NFKD", s).encode("ascii", "ignore").decode("ascii")\<close> of
  the runtime.
\<close>

record env =
  uuid4 :: string
  time_now :: int
  ext_iter :: "string list"
  save_out :: io_outcome
  predict_out :: "box list option outcome"
  plot_out :: "string outcome"
  persist_out :: io_outcome
  remove_fails :: bool
  index_html :: string
  nfkd_ascii :: "string \<Rightarrow> string"

text \<open>The calls that touch the disk or the model, in the order they are made.\<close>

datatype call =
    FileSave string
  | ModelPredict string
  | Plot
  | ImageSave string
  | Remove string

text \<open>
  The process: the global \<open>model\<close> (\<open>None\<close> when loading failed at start), the files on
  disk by path, and the log of calls made so far.
\<close>

record server =
  model :: "yolo option"
  fs :: "string \<rightharpoonup> string"
  trace :: "call list"

text \<open>
  A JSON value of a response body; \<open>JDict\<close> is a dictionary from strings to integers, in
  insertion order. A response is a body with its HTTP status.
\<close>

datatype jvalue = JStr string | JInt int | JBool bool | JDict "(string \<times> int) list"

datatype body = Json "(string \<times> jvalue) list" | Html string

type_synonym response = "body \<times> nat"

section \<open>Counting detections by class\<close>

text \<open>\<open>d.get(k, default)\<close> on a dictionary kept as an association list\<close>

definition dict_get :: "('k \<times> 'v) list \<Rightarrow> 'k \<Rightarrow> 'v \<Rightarrow> 'v" where
  "dict_get d k dflt = (case map_of d k of None \<Rightarrow> dflt | Some v \<Rightarrow> v)"

text \<open>\<open>class_names.get(class_id, f"Class_{class_id}")\<close>\<close>

definition class_name_of :: "(int \<rightharpoonup> string) \<Rightarrow> int \<Rightarrow> string" where
  "class_name_of class_names class_id =
     (case class_names class_id of None \<Rightarrow> ''Class_'' @ str_int class_id | Some n \<Rightarrow> n)"

text \<open>The loop over the boxes; the last argument is \<open>detection_stats\<close> so far.\<close>

fun count_boxes ::
  "(int \<rightharpoonup> string) \<Rightarrow> box list \<Rightarrow> (string \<times> int) list \<Rightarrow> (string \<times> int) list" where
  "count_boxes class_names [] detection_stats = detection_stats"
| "count_boxes class_names (b # rest) detection_stats =
     (let class_id = cls b;
          class_name = class_name_of class_names class_id
      in count_boxes class_names rest
           (AList.update class_name (dict_get detection_stats class_name 0 + 1) detection_stats))"

definition count_detections ::
  "(int \<rightharpoonup> string) \<Rightarrow> box list option \<Rightarrow> (string \<times> int) list" where
  "count_detections class_names detections =
     (case detections of
        None \<Rightarrow> []
      | Some bs \<Rightarrow> if length bs > 0 then count_boxes class_names bs [] else [])"

section \<open>The handlers\<close>

definition UPLOAD_FOLDER :: string where
  "UPLOAD_FOLDER = ''static/uploads''"

definition RESULT_FOLDER :: string where
  "RESULT_FOLDER = ''static/results''"

text \<open>\<open>os.path.join(folder, name)\<close> for a folder without a trailing slash and a relative name\<close>

definition path_join :: "string \<Rightarrow> string \<Rightarrow> string" where
  "path_join folder name = folder @ ''/'' @ name"

text \<open>
  \<open>url_for('static', filename=name)\<close> with the default static route. The names the
  handler passes consist of unreserved characters, which the URL builder leaves as they
  are.
\<close>

definition url_for_static :: "string \<Rightarrow> string" where
  "url_for_static name = ''/static/'' @ name"

definition allowed_extensions :: "string set" where
  "allowed_extensions = {''png'', ''jpg'', ''jpeg'', ''gif'', ''bmp'', ''tiff'', ''webp''}"

text \<open>\<open>file.filename.rsplit('.', 1)[-1].lower() if '.' in file.filename else ''\<close>\<close>

definition file_extension :: "string \<Rightarrow> string" where
  "file_extension name =
     (if CHR ''.'' \<in> set name then lower (last (rsplit1 (CHR ''.'') name)) else [])"

text \<open>\<open>FileStorage.__bool__\<close> is \<open>bool(self.filename)\<close>.\<close>

definition truthy :: "file_storage \<Rightarrow> bool" where
  "truthy file = (filename file \<noteq> [])"

definition error_response :: "string \<Rightarrow> nat \<Rightarrow> response" where
  "error_response msg code = (Json [(''error'', JStr msg), (''status'', JStr ''error'')], code)"

text \<open>The names the \<open>try\<close> block binds before it touches the disk.\<close>

definition unique_id :: "env \<Rightarrow> string" where
  "unique_id e = take 8 (uuid4 e)"

definition timestamp :: "env \<Rightarrow> string" where
  "timestamp e = str_int (time_now e)"

definition base_name :: "env \<Rightarrow> file_storage \<Rightarrow> string" where
  "base_name e file = secure_filename (nfkd_ascii e) (hd (rsplit1 (CHR ''.'') (filename file)))"

definition extension :: "file_storage \<Rightarrow> string" where
  "extension file = lower (last (rsplit1 (CHR ''.'') (filename file)))"

definition unique_filename :: "env \<Rightarrow> file_storage \<Rightarrow> string" where
  "unique_filename e file =
     base_name e file @ ''_'' @ timestamp e @ ''_'' @ unique_id e @ ''.'' @ extension file"

definition uploaded_filepath :: "env \<Rightarrow> file_storage \<Rightarrow> string" where
  "uploaded_filepath e file = path_join UPLOAD_FOLDER (unique_filename e file)"

definition result_filename :: "env \<Rightarrow> file_storage \<Rightarrow> string" where
  "result_filename e file =
     ''result_'' @ base_name e file @ ''_'' @ timestamp e @ ''_'' @ unique_id e @ ''.'' @ extension file"

definition result_path :: "env \<Rightarrow> file_storage \<Rightarrow> string" where
  "result_path e file = path_join RESULT_FOLDER (result_filename e file)"

text \<open>The effect of a write of \<open>content\<close> to \<open>path\<close> on the disk.\<close>

definition write_file :: "io_outcome \<Rightarrow> string \<Rightarrow> string \<Rightarrow> (string \<rightharpoonup> string) \<Rightarrow> (string \<rightharpoonup> string)" where
  "write_file out path content disk =
     (case out of
        Done \<Rightarrow> disk(path \<mapsto> content)
      | Fails msg None \<Rightarrow> disk
      | Fails msg (Some partial) \<Rightarrow> disk(path \<mapsto> partial))"

definition logged :: "call \<Rightarrow> server \<Rightarrow> server" where
  "logged c s = s\<lparr>trace := trace s @ [c]\<rparr>"

text \<open>
  \<open>str(e)\<close> of the \<open>FileNotFoundError\<close> that \<open>os.path.getsize\<close> raises for a missing
  path.
\<close>

definition no_such_file :: "string \<Rightarrow> string" where
  "no_such_file path = ''[Errno 2] No such file or directory: '' @ [CHR 0x27] @ path @ [CHR 0x27]"

text \<open>
  The body of the \<open>try\<close> block: \<open>Inl\<close> carries the message of the exception raised and
  the state at that moment, \<open>Inr\<close> the response returned. Every step that fails ends the
  block at once.
\<close>

definition try_block :: "env \<Rightarrow> yolo \<Rightarrow> file_storage \<Rightarrow> server \<Rightarrow> (string \<times> server) + (response \<times> server)" where
  "try_block e m file s =
     (let s1 = logged (FileSave (uploaded_filepath e file))
                 (s\<lparr>fs := write_file (save_out e) (uploaded_filepath e file) (stream file) (fs s)\<rparr>)
      in case save_out e of
        Fails msg left \<Rightarrow> Inl (msg, s1)
      | Done \<Rightarrow>
         (let s2 = logged (ModelPredict (uploaded_filepath e file)) s1
          in case predict_out e of
            Raises msg \<Rightarrow> Inl (msg, s2)
          | Returns detections \<Rightarrow>
             (let s3 = logged Plot s2
              in case plot_out e of
                Raises msg \<Rightarrow> Inl (msg, s3)
              | Returns result_img \<Rightarrow>
                 (let detection_stats = count_detections (names m) detections;
                      s4 = logged (ImageSave (result_path e file))
                             (s3\<lparr>fs := write_file (persist_out e) (result_path e file) result_img (fs s3)\<rparr>)
                  in case persist_out e of
                    Fails msg left \<Rightarrow> Inl (msg, s4)
                  | Done \<Rightarrow>
                     (case fs s4 (uploaded_filepath e file) of
                        None \<Rightarrow> Inl (no_such_file (uploaded_filepath e file), s4)
                      | Some data \<Rightarrow>
                          Inr ((Json
                                 [(''status'', JStr ''success''),
                                  (''uploaded_image_url'', JStr (url_for_static (''uploads/'' @ unique_filename e file))),
                                  (''result_image_url'', JStr (url_for_static (''results/'' @ result_filename e file))),
                                  (''detection_stats'', JDict detection_stats),
                                  (''total_detections'',
                                     JInt (if detection_stats \<noteq> [] then sum_list (map snd detection_stats) else 0)),
                                  (''filename'', JStr (unique_filename e file)),
                                  (''timestamp'', JStr (timestamp e)),
                                  (''file_size'', JInt (int (length data)))],
                                200), s4))))))"

text \<open>
  The \<open>except\<close> clause. Its second argument is the local \<open>uploaded_filepath\<close>, \<open>None\<close>
  when the exception came before the name was bound. A failing \<open>os.remove\<close> is passed
  over.
\<close>

definition handle_exception :: "env \<Rightarrow> string option \<Rightarrow> string \<Rightarrow> server \<Rightarrow> response \<times> server" where
  "handle_exception e local_path msg s =
     (let s' = (case local_path of
                  None \<Rightarrow> s
                | Some path \<Rightarrow>
                    if fs s path \<noteq> None
                    then (if remove_fails e then logged (Remove path) s
                          else logged (Remove path) (s\<lparr>fs := (fs s)(path := None)\<rparr>))
                    else s)
      in (error_response (''An error occurred during object detection: '' @ msg) 500, s'))"

definition process :: "env \<Rightarrow> yolo \<Rightarrow> file_storage \<Rightarrow> server \<Rightarrow> response \<times> server" where
  "process e m file s =
     (case try_block e m file s of
        Inl (msg, s') \<Rightarrow> handle_exception e (Some (uploaded_filepath e file)) msg s'
      | Inr r \<Rightarrow> r)"

text \<open>\<open>POST /predict\<close>\<close>

definition predict :: "env \<Rightarrow> request \<Rightarrow> server \<Rightarrow> response \<times> server" where
  "predict e req s =
     (case model s of
        None \<Rightarrow>
          (error_response ''Deep learning model not loaded. Please check server logs for details.'' 500, s)
      | Some m \<Rightarrow>
         (case files req ''image'' of
            None \<Rightarrow> (error_response ''No image file part in the request.'' 400, s)
          | Some file \<Rightarrow>
              if filename file = [] then (error_response ''No selected file.'' 400, s)
              else if file_extension (filename file) \<notin> allowed_extensions
              then (error_response
                      (''Invalid file type. Supported formats: '' @ join '', '' (ext_iter e)) 400, s)
              else if truthy file then process e m file s
              else (error_response ''Something went wrong during file upload or processing.'' 500, s)))"

text \<open>\<open>GET /health\<close>\<close>

definition health_check :: "server \<Rightarrow> response" where
  "health_check s =
     (Json [(''status'', JStr (if model s \<noteq> None then ''healthy'' else ''degraded'')),
            (''model_loaded'', JBool (model s \<noteq> None)),
            (''service'', JStr ''SkyVision Object Detection API'')], 200)"

text \<open>\<open>GET /\<close>\<close>

definition index :: "env \<Rightarrow> response" where
  "index e = (Html (index_html e), 200)"

text \<open>The requests the application routes, and serving a sequence of them.\<close>

datatype http_request = GetIndex | PostPredict request | GetHealth

definition handle :: "env \<Rightarrow> http_request \<Rightarrow> server \<Rightarrow> response \<times> server" where
  "handle e r s =
     (case r of
        GetIndex \<Rightarrow> (index e, s)
      | PostPredict req \<Rightarrow> predict e req s
      | GetHealth \<Rightarrow> (health_check s, s))"

fun serve :: "(env \<times> http_request) list \<Rightarrow> server \<Rightarrow> response list \<times> server" where
  "serve [] s = ([], s)"
| "serve ((e, r) # rest) s =
     (let (resp, s') = handle e r s;
          (resps, s'') = serve rest s'
      in (resp # resps, s''))"

text \<open>
  What the runtime guarantees of the environment: \<open>str(uuid.uuid4())\<close> is 36 characters,
  lower-case hexadecimal digits in groups of 8, 4, 4, 4 and 12 separated by hyphens;
  iterating the set of allowed extensions yields each of them once; and normalising and
  encoding a text that is ASCII already gives the same text.
\<close>

definition hex_class :: "char \<Rightarrow> char" where
  "hex_class c =
     (if c \<in> set ''0123456789abcdef'' then CHR ''h''
      else if c = CHR ''-'' then CHR ''-'' else CHR ''?'')"

definition hex_shape :: "string \<Rightarrow> string" where
  "hex_shape u = map hex_class u"

definition env_ok :: "env \<Rightarrow> bool" where
  "env_ok e =
     (hex_shape (uuid4 e) = ''hhhhhhhh-hhhh-hhhh-hhhh-hhhhhhhhhhhh'' \<and>
      distinct (ext_iter e) \<and> set (ext_iter e) = allowed_extensions \<and>
      (\<forall>s. list_all is_ascii s \<longrightarrow> nfkd_ascii e s = s))"

section \<open>Notions the claims are stated with\<close>

text \<open>
  The definitions of this section are not taken from the program. They say, without the
  program's own \<open>lower\<close> and \<open>str\<close>, what the claims mean by a match that ignores case,
  by the decimal text of a number, and by the letters and digits of a name; the theorems
  compare the program with them.
\<close>

definition spec_same_letter :: "char \<Rightarrow> char \<Rightarrow> bool" where
  "spec_same_letter c d =
     (c = d \<or> (c, d) \<in> set (zip upper_letters lower_letters)
      \<or> (d, c) \<in> set (zip upper_letters lower_letters))"

definition spec_equal_ignoring_case :: "string \<Rightarrow> string \<Rightarrow> bool" where
  "spec_equal_ignoring_case a b = list_all2 spec_same_letter a b"

definition spec_extension_allowed :: "string \<Rightarrow> bool" where
  "spec_extension_allowed name =
     (\<exists>stem ext x. name = stem @ ''.'' @ ext \<and> CHR ''.'' \<notin> set ext
        \<and> x \<in> {''png'', ''jpg'', ''jpeg'', ''gif'', ''bmp'', ''tiff'', ''webp''}
        \<and> spec_equal_ignoring_case ext x)"

definition spec_digit_value :: "char \<Rightarrow> nat" where
  "spec_digit_value c = of_char c - 48"

definition spec_decimal :: "string \<Rightarrow> nat" where
  "spec_decimal ds = foldl (\<lambda>n c. 10 * n + spec_digit_value c) 0 ds"

definition spec_read_int :: "string \<Rightarrow> int" where
  "spec_read_int t =
     (case t of
        [] \<Rightarrow> 0
      | c # ds \<Rightarrow> if c = CHR ''-'' then - int (spec_decimal ds) else int (spec_decimal (c # ds)))"

definition spec_alnum :: "char \<Rightarrow> bool" where
  "spec_alnum c = (c \<in> set (upper_letters @ lower_letters @ digit_chars))"

section \<open>A sample request\<close>

text \<open>
  Concrete values on which the theorems below are instantiated: an environment in which
  every step succeeds and the model reports three boxes, a server with a loaded model
  that knows class 0, and an upload named \<open>my cat.JPG\<close>. The names used with this
  environment are ASCII, where normalising and encoding change nothing; its
  \<open>nfkd_ascii\<close> keeps the ASCII characters of a text.
\<close>

definition sample_env :: env where
  "sample_env =
     \<lparr>uuid4 = ''3f2a9c1e-7b4d-4e8a-9c0f-1a2b3c4d5e6f'', time_now = 1700000000,
      ext_iter = [''png'', ''jpg'', ''jpeg'', ''gif'', ''bmp'', ''tiff'', ''webp''],
      save_out = Done,
      predict_out = Returns (Some [\<lparr>cls = 0\<rparr>, \<lparr>cls = 5\<rparr>, \<lparr>cls = 0\<rparr>]),
      plot_out = Returns ''IMG'', persist_out = Done, remove_fails = False,
      index_html = ''<html>'', nfkd_ascii = filter is_ascii\<rparr>"

definition sample_model :: yolo where
  "sample_model = \<lparr>names = [0 \<mapsto> ''plane'']\<rparr>"

definition sample_server :: server where
  "sample_server = \<lparr>model = Some sample_model, fs = Map.empty, trace = []\<rparr>"

definition sample_file :: file_storage where
  "sample_file = \<lparr>filename = ''my cat.JPG'', stream = ''abcd''\<rparr>"

definition sample_request :: request where
  "sample_request = \<lparr>files = [''image'' \<mapsto> sample_file]\<rparr>"

section \<open>Facts about the string operations\<close>

lemma lower_char_upper: "c \<in> set upper_letters \<Longrightarrow> lower_char c \<noteq> c"
  by (auto simp: lower_char_def upper_letters_def lower_letters_def)

lemma lower_char_other: "c \<notin> set upper_letters \<Longrightarrow> lower_char c = c"
  by (auto simp: lower_char_def upper_letters_def lower_letters_def)

lemma lower_char_not_upper: "lower_char c \<notin> set upper_letters"
  by (cases "c \<in> set upper_letters") (auto simp: lower_char_def upper_letters_def lower_letters_def)

lemma lower_char_dot: "(lower_char c = CHR ''.'') = (c = CHR ''.'')"
  by (cases "c \<in> set upper_letters") (auto simp: lower_char_def upper_letters_def lower_letters_def)

lemma lower_idem: "lower (lower s) = lower s"
  by (simp add: lower_def lower_char_other lower_char_not_upper)

lemma lower_changes_upper: "\<exists>c\<in>set s. c \<in> set upper_letters \<Longrightarrow> lower s \<noteq> s"
proof (induction s)
  case Nil
  then show ?case by simp
next
  case (Cons a s)
  then show ?case by (auto simp: lower_def lower_char_upper)
qed

lemma dot_in_lower: "(CHR ''.'' \<in> set (lower s)) = (CHR ''.'' \<in> set s)"
proof -
  have "(CHR ''.'' = lower_char c) = (c = CHR ''.'')" for c
    using lower_char_dot [of c] by auto
  then show ?thesis by (induction s) (auto simp add: lower_def)
qed

lemma rsplit1_nonempty: "rsplit1 sep s \<noteq> []"
  by (simp add: rsplit1_def)

lemma rsplit1_parts:
  assumes "sep \<in> set s"
  shows "\<exists>a b. s = a @ [sep] @ b \<and> sep \<notin> set b \<and> rsplit1 sep s = [a, b]"
proof -
  let ?r = "rev s"
  let ?b = "takeWhile (\<lambda>c. c \<noteq> sep) ?r"
  let ?d = "dropWhile (\<lambda>c. c \<noteq> sep) ?r"
  from assms have "?d \<noteq> []" by (simp add: dropWhile_eq_Nil_conv) 
  moreover have "hd ?d = sep" if "?d \<noteq> []" using that hd_dropWhile[of "\<lambda>c. c \<noteq> sep" ?r] by auto
  ultimately have d: "?d = sep # drop 1 ?d" by (cases ?d) auto
  have "?r = ?b @ ?d" by simp
  then have "rev ?r = rev ?d @ rev ?b" by (metis rev_append)
  then have "s = rev (drop 1 ?d) @ [sep] @ rev ?b" using d by (metis append_Cons append_Nil append_assoc rev.simps(2) rev_rev_ident)
  moreover have "sep \<notin> set (rev ?b)" using set_takeWhileD by fastforce
  ultimately show ?thesis using assms by (auto simp: rsplit1_def)
qed

lemma rsplit1_unique:
  assumes "s = a @ [sep] @ b" "sep \<notin> set b"
  shows "rsplit1 sep s = [a, b]"
proof -
  have r: "rev s = rev b @ sep # rev a" using assms by simp
  have "takeWhile (\<lambda>c. c \<noteq> sep) (rev s) = rev b"
    unfolding r using assms(2) by (subst takeWhile_append2) auto
  moreover have "dropWhile (\<lambda>c. c \<noteq> sep) (rev s) = sep # rev a"
    unfolding r using assms(2) by (subst dropWhile_append2) auto
  moreover have "sep \<in> set s" using assms by simp
  ultimately show ?thesis by (simp add: rsplit1_def)
qed


lemma strip_subset: "set (strip chars s) \<subseteq> set s"
proof -
  have drop_sub: "set (dropWhile P xs) \<subseteq> set xs" for P and xs :: string
    by (auto dest: set_dropWhileD)
  have "set (strip chars s) = set (dropWhile (\<lambda>c. c \<in> set chars) (rev (dropWhile (\<lambda>c. c \<in> set chars) s)))"
    by (simp add: strip_def)
  also have "\<dots> \<subseteq> set (rev (dropWhile (\<lambda>c. c \<in> set chars) s))" by (rule drop_sub)
  also have "\<dots> = set (dropWhile (\<lambda>c. c \<in> set chars) s)" by simp
  also have "\<dots> \<subseteq> set s" by (rule drop_sub)
  finally show ?thesis .
qed

lemma secure_filename_safe: "set (secure_filename to_ascii name) \<subseteq> set safe_chars"
proof -
  have "set (ascii_strip t) \<subseteq> set safe_chars" for t
    by (auto simp: ascii_strip_def)
  then show ?thesis
    unfolding secure_filename_def using strip_subset by fastforce
qed

lemma digit_char_safe:
  assumes "d < 10"
  shows "digit_char d \<in> set digit_chars"
  unfolding digit_char_def digit_chars_def by (rule nth_mem) (use assms in simp)

lemma str_nat_digits: "set (str_nat n) \<subseteq> set digit_chars"
proof (induction n rule: str_nat.induct)
  case (1 n)
  show ?case
  proof (cases "n < 10")
    case True
    then show ?thesis by (subst str_nat.simps) (simp add: digit_char_safe)
  next
    case False
    then have "set (str_nat (n div 10)) \<subseteq> set digit_chars" using 1 by simp
    moreover have "digit_char (n mod 10) \<in> set digit_chars" by (simp add: digit_char_safe)
    ultimately show ?thesis using False by (subst str_nat.simps) simp
  qed
qed

lemma str_int_safe: "set (str_int i) \<subseteq> set safe_chars"
proof -
  have digits: "set (str_nat n) \<subseteq> set safe_chars" for n
    using str_nat_digits [of n] by (auto simp: safe_chars_def)
  have "CHR ''-'' \<in> set safe_chars" by (simp add: safe_chars_def)
  with digits show ?thesis by (simp add: str_int_def)
qed

lemma paths_differ: "uploaded_filepath e file \<noteq> result_path e' file'"
  by (simp add: uploaded_filepath_def result_path_def path_join_def UPLOAD_FOLDER_def RESULT_FOLDER_def)

lemma allowed_has_dot:
  assumes "file_extension name \<in> allowed_extensions"
  shows "CHR ''.'' \<in> set name"
proof (rule ccontr)
  assume "CHR ''.'' \<notin> set name"
  then have "file_extension name = []" by (simp add: file_extension_def)
  with assms show False by (simp add: allowed_extensions_def)
qed

lemma allowed_truthy:
  "file_extension (filename file) \<in> allowed_extensions \<Longrightarrow> truthy file"
  using allowed_has_dot [of "filename file"] by (auto simp: truthy_def)

lemma extension_is_file_extension:
  "CHR ''.'' \<in> set (filename file) \<Longrightarrow> extension file = file_extension (filename file)"
  by (simp add: extension_def file_extension_def)


text \<open>The program's \<open>lower\<close> and \<open>str\<close> against the notions the claims are stated with.\<close>

lemma letters_facts:
  "distinct upper_letters"
  "length upper_letters = length lower_letters"
  "set upper_letters \<inter> set lower_letters = {}"
  by (simp_all add: upper_letters_def lower_letters_def)

lemma zip_letters_left: "(c, d) \<in> set (zip upper_letters lower_letters) \<Longrightarrow> c \<in> set upper_letters"
  by (rule set_zip_leftD)

lemma lower_char_same_letter:
  assumes "d \<in> set lower_letters"
  shows "(lower_char c = d) = spec_same_letter c d"
proof -
  let ?table = "zip upper_letters lower_letters"
  have keys: "map fst ?table = upper_letters"
    using letters_facts(2) by simp
  have not_key: "(d, c) \<notin> set ?table"
    using assms letters_facts(3) zip_letters_left [of d c] by blast
  show ?thesis
  proof (cases "map_of ?table c")
    case None
    then have "c \<notin> set upper_letters"
      using keys by (metis map_of_eq_None_iff list.set_map)
    then have "(c, d) \<notin> set ?table"
      using zip_letters_left [of c d] by blast
    with None not_key show ?thesis
      by (simp add: lower_char_def spec_same_letter_def)
  next
    case (Some l)
    have unique: "((c, d) \<in> set ?table) = (l = d)"
      using Some letters_facts(1) keys
      by (metis map_of_eq_Some_iff option.inject)
    have "c \<in> set upper_letters"
      using Some zip_letters_left [of c l] by (meson map_of_SomeD)
    then have "c \<noteq> d" using assms letters_facts(3) by blast
    with Some unique not_key show ?thesis
      by (simp add: lower_char_def spec_same_letter_def)
  qed
qed

lemma lower_equal_ignoring_case:
  assumes "set x \<subseteq> set lower_letters"
  shows "(lower b = x) = spec_equal_ignoring_case b x"
  using assms
proof (induction b arbitrary: x)
  case Nil
  show ?case by (auto simp: lower_def spec_equal_ignoring_case_def)
next
  case (Cons c b)
  show ?case
  proof (cases x)
    case Nil
    then show ?thesis by (simp add: lower_def spec_equal_ignoring_case_def)
  next
    case (Cons d y)
    with Cons.prems have "d \<in> set lower_letters" "set y \<subseteq> set lower_letters" by simp_all
    then have "(lower_char c = d) = spec_same_letter c d" "(lower b = y) = spec_equal_ignoring_case b y"
      using lower_char_same_letter Cons.IH by blast+
    then show ?thesis
      using Cons by (simp add: lower_def spec_equal_ignoring_case_def)
  qed
qed

lemma spec_digit_value_digit_char:
  assumes "d < 10"
  shows "spec_digit_value (digit_char d) = d"
proof -
  from assms have "d = 0 \<or> d = 1 \<or> d = 2 \<or> d = 3 \<or> d = 4
      \<or> d = 5 \<or> d = 6 \<or> d = 7 \<or> d = 8 \<or> d = 9"
    by arith
  then show ?thesis
    by (elim disjE) (simp_all add: spec_digit_value_def digit_char_def)
qed

lemma spec_decimal_snoc:
  "spec_decimal (ds @ [c]) = 10 * spec_decimal ds + spec_digit_value c"
  by (simp add: spec_decimal_def)

lemma spec_decimal_str_nat: "spec_decimal (str_nat n) = n"
proof (induction n rule: str_nat.induct)
  case (1 n)
  show ?case
  proof (cases "n < 10")
    case True
    then have "str_nat n = [digit_char n]" by (subst str_nat.simps) simp
    then show ?thesis
      using True by (simp add: spec_decimal_def spec_digit_value_digit_char)
  next
    case False
    then have "str_nat n = str_nat (n div 10) @ [digit_char (n mod 10)]"
      by (subst str_nat.simps) simp
    moreover have "spec_decimal (str_nat (n div 10)) = n div 10" using False 1 by simp
    ultimately show ?thesis
      by (simp add: spec_decimal_snoc spec_digit_value_digit_char)
  qed
qed

lemma str_nat_first:
  obtains c cs where "str_nat n = c # cs" "c \<in> set digit_chars"
proof -
  have "str_nat n \<noteq> []" by (subst str_nat.simps) simp
  then obtain c cs where eq: "str_nat n = c # cs" by (cases "str_nat n") auto
  moreover have "c \<in> set digit_chars" using str_nat_digits [of n] eq by simp
  ultimately show ?thesis by (rule that)
qed

lemma spec_read_int_str_int: "spec_read_int (str_int i) = i"
proof (cases "i < 0")
  case True
  then show ?thesis
    by (simp add: str_int_def spec_read_int_def spec_decimal_str_nat)
next
  case False
  obtain c cs where eq: "str_nat (nat i) = c # cs" and digit: "c \<in> set digit_chars"
    by (rule str_nat_first)
  from digit have "c \<noteq> CHR ''-''" by (auto simp: digit_chars_def)
  moreover have "spec_decimal (c # cs) = nat i"
    using spec_decimal_str_nat [of "nat i"] eq by simp
  ultimately show ?thesis
    using False eq by (simp add: str_int_def spec_read_int_def)
qed

lemma str_int_inject: "(str_int i = str_int j) = (i = j)"
  by (metis spec_read_int_str_int)


lemma not_alnum:
  "\<not> spec_alnum (CHR ''/'')" "\<not> spec_alnum (CHR '' '')" "\<not> spec_alnum (CHR ''_'')"
  "\<not> spec_alnum (CHR ''.'')"
  by (simp_all add: spec_alnum_def upper_letters_def lower_letters_def digit_chars_def)

lemma space_not_alnum: "is_space c \<Longrightarrow> \<not> spec_alnum c"
  by (auto simp: is_space_def spec_alnum_def upper_letters_def lower_letters_def digit_chars_def)

lemma alnum_safe: "spec_alnum c \<Longrightarrow> c \<in> set safe_chars"
  by (auto simp: spec_alnum_def safe_chars_def)

lemma filter_dropWhile_other:
  assumes "\<And>c. Q c \<Longrightarrow> \<not> P c"
  shows "filter P (dropWhile Q s) = filter P s"
  using assms by (induction s) auto

lemma alnum_strip: "filter spec_alnum (strip ''._'' s) = filter spec_alnum s"
proof -
  let ?Q = "\<lambda>c. c \<in> set ''._''"
  have other: "\<not> spec_alnum c" if "?Q c" for c
    using that not_alnum by auto
  have drop: "filter spec_alnum (dropWhile ?Q t) = filter spec_alnum t" for t
    by (rule filter_dropWhile_other) (rule other)
  have "filter spec_alnum (strip ''._'' s) =
          rev (filter spec_alnum (dropWhile ?Q (rev (dropWhile ?Q s))))"
    by (simp add: strip_def rev_filter)
  also have "\<dots> = rev (filter spec_alnum (rev (dropWhile ?Q s)))"
    by (simp only: drop)
  also have "\<dots> = filter spec_alnum (dropWhile ?Q s)"
    by (simp add: rev_filter)
  also have "\<dots> = filter spec_alnum s"
    by (simp only: drop)
  finally show ?thesis .
qed

lemma alnum_ascii_strip: "filter spec_alnum (ascii_strip s) = filter spec_alnum s"
  by (induction s) (auto simp: ascii_strip_def alnum_safe)

lemma alnum_join_cons:
  "filter spec_alnum (join ''_'' (x # xs)) = filter spec_alnum x @ filter spec_alnum (join ''_'' xs)"
  using not_alnum(3) by (cases xs) simp_all

lemma alnum_split_ws:
  "filter spec_alnum (join ''_'' (split_ws w s)) = filter spec_alnum (w @ s)"
proof (induction w s rule: split_ws.induct)
  case (1 w)
  show ?case by simp
next
  case (2 w c cs)
  show ?case
  proof (cases "is_space c")
    case True
    then have "\<not> spec_alnum c" by (rule space_not_alnum)
    with True 2 show ?thesis by (cases "w = []") (simp_all add: alnum_join_cons)
  next
    case False
    with 2 show ?thesis by simp
  qed
qed

lemma alnum_replace_slash:
  "filter spec_alnum (replace (CHR ''/'') (CHR '' '') s) = filter spec_alnum s"
  using not_alnum(1,2) by (induction s) (auto simp: replace_def)

lemma secure_filename_keeps_alnum:
  "filter spec_alnum (secure_filename to_ascii name) = filter spec_alnum (to_ascii name)"
  by (simp add: secure_filename_def alnum_strip alnum_ascii_strip split_def alnum_split_ws
      alnum_replace_slash)

lemma count_boxes_lookup:
  "map_of (count_boxes ns bs d) k =
     (let n = length (filter (\<lambda>b. class_name_of ns (cls b) = k) bs)
      in if n = 0 then map_of d k else Some (dict_get d k 0 + int n))"
  by (induction bs arbitrary: d) (auto simp: Let_def update_conv dict_get_def split: option.splits)

lemma count_boxes_distinct:
  "distinct (map fst d) \<Longrightarrow> distinct (map fst (count_boxes ns bs d))"
  by (induction bs arbitrary: d) (auto simp: Let_def distinct_update)

text \<open>
  Claim C6. For every detection set the model returns, \<open>detection_stats\<close> maps a class
  name to a count: the name of a detection is the entry of its class id in the model's
  table, or \<open>Class_\<close> followed by the decimal text of the id when the table has none, and
  the count of a name is the number of detections with that name. A name that no
  detection has is not a key, and no key occurs twice. Reading the decimal text back
  gives the id, so two ids share a synthetic label only when they are equal.
\<close>

theorem detection_stats_counts:
  "map_of (count_detections class_names detections) name =
     (let n = length (filter
                (\<lambda>b. (case class_names (cls b) of
                         None \<Rightarrow> ''Class_'' @ str_int (cls b)
                       | Some label \<Rightarrow> label) = name)
                (case detections of None \<Rightarrow> [] | Some bs \<Rightarrow> bs))
      in if n = 0 then None else Some (int n))
   \<and> distinct (map fst (count_detections class_names detections))
   \<and> spec_read_int (str_int i) = i
   \<and> ((''Class_'' @ str_int i = ''Class_'' @ str_int j) = (i = j))"
proof -
  have resolve: "class_name_of class_names k =
      (case class_names k of None \<Rightarrow> ''Class_'' @ str_int k | Some label \<Rightarrow> label)" for k
    by (simp add: class_name_of_def)
  have counted: "map_of (count_detections class_names detections) name =
     (let n = length (filter
                (\<lambda>b. (case class_names (cls b) of
                         None \<Rightarrow> ''Class_'' @ str_int (cls b)
                       | Some label \<Rightarrow> label) = name)
                (case detections of None \<Rightarrow> [] | Some bs \<Rightarrow> bs))
      in if n = 0 then None else Some (int n))
   \<and> distinct (map fst (count_detections class_names detections))"
  proof (cases detections)
    case None
    then show ?thesis by (simp add: count_detections_def)
  next
    case (Some bs)
    show ?thesis
    proof (cases bs)
      case Nil
      with Some show ?thesis by (simp add: count_detections_def)
    next
      case (Cons b rest)
      with Some have "count_detections class_names detections = count_boxes class_names bs []"
        by (simp add: count_detections_def)
      moreover have "distinct (map fst (count_boxes class_names bs []))"
        by (rule count_boxes_distinct) simp
      ultimately show ?thesis
        using Some count_boxes_lookup [of class_names bs "[]" name]
        by (simp add: resolve dict_get_def Let_def)
    qed
  qed
  moreover have "spec_read_int (str_int i) = i"
    by (rule spec_read_int_str_int)
  moreover have "(''Class_'' @ str_int i = ''Class_'' @ str_int j) = (i = j)"
    by (simp add: str_int_inject)
  ultimately show ?thesis by blast
qed

theorem detection_stats_counts_witness:
  "count_detections (names sample_model)
      (Some [\<lparr>cls = 0\<rparr>, \<lparr>cls = 5\<rparr>, \<lparr>cls = 0\<rparr>, \<lparr>cls = 7\<rparr>]) =
     [(''plane'', 2), (''Class_5'', 1), (''Class_7'', 1)]
   \<and> map_of (count_detections (names sample_model)
        (Some [\<lparr>cls = 0\<rparr>, \<lparr>cls = 5\<rparr>, \<lparr>cls = 0\<rparr>, \<lparr>cls = 7\<rparr>])) ''plane'' = Some 2
   \<and> map_of (count_detections (names sample_model)
        (Some [\<lparr>cls = 0\<rparr>, \<lparr>cls = 5\<rparr>, \<lparr>cls = 0\<rparr>, \<lparr>cls = 7\<rparr>])) ''Class_5'' = Some 1
   \<and> map_of (count_detections (names sample_model)
        (Some [\<lparr>cls = 0\<rparr>, \<lparr>cls = 5\<rparr>, \<lparr>cls = 0\<rparr>, \<lparr>cls = 7\<rparr>])) ''Class_7'' = Some 1
   \<and> map_of (count_detections (names sample_model)
        (Some [\<lparr>cls = 0\<rparr>, \<lparr>cls = 5\<rparr>, \<lparr>cls = 0\<rparr>, \<lparr>cls = 7\<rparr>])) ''Class_'' = None
   \<and> spec_read_int ''5'' = 5 \<and> spec_read_int ''-12'' = - 12"
proof -
  let ?boxes = "Some [\<lparr>cls = 0\<rparr>, \<lparr>cls = 5\<rparr>, \<lparr>cls = 0\<rparr>, \<lparr>cls = 7\<rparr>]"
  have table: "names sample_model 0 = Some ''plane''" "names sample_model 5 = None"
    "names sample_model 7 = None"
    by (simp_all add: sample_model_def)
  have decimal: "str_int 5 = ''5''" "str_int 7 = ''7''" "str_int (- 12) = ''-12''"
    by (simp_all add: str_int_def str_nat.simps digit_char_def)
  have labels: "class_name_of (names sample_model) 0 = ''plane''"
    "class_name_of (names sample_model) 5 = ''Class_5''"
    "class_name_of (names sample_model) 7 = ''Class_7''"
    by (simp_all add: class_name_of_def table decimal)
  have whole: "count_detections (names sample_model) ?boxes =
     [(''plane'', 2), (''Class_5'', 1), (''Class_7'', 1)]"
    by (simp add: count_detections_def labels dict_get_def)
  have "map_of (count_detections (names sample_model) ?boxes) ''plane'' = Some 2"
    using detection_stats_counts [of "names sample_model" ?boxes "''plane''"]
    by (simp add: table decimal)
  moreover have "map_of (count_detections (names sample_model) ?boxes) ''Class_5'' = Some 1"
    using detection_stats_counts [of "names sample_model" ?boxes "''Class_5''"]
    by (simp add: table decimal)
  moreover have "map_of (count_detections (names sample_model) ?boxes) ''Class_7'' = Some 1"
    using detection_stats_counts [of "names sample_model" ?boxes "''Class_7''"]
    by (simp add: table decimal)
  moreover have "map_of (count_detections (names sample_model) ?boxes) ''Class_'' = None"
    using detection_stats_counts [of "names sample_model" ?boxes "''Class_''"]
    by (simp add: table decimal)
  moreover have "spec_read_int ''5'' = 5"
    using detection_stats_counts [of "names sample_model" ?boxes "''plane''" 5] decimal(1)
    by simp
  moreover have "spec_read_int ''-12'' = - 12"
    using detection_stats_counts [of "names sample_model" ?boxes "''plane''" "- 12"] decimal(3)
    by simp
  ultimately show ?thesis using whole by simp
qed

lemma sum_count_boxes:
  "distinct (map fst d) \<Longrightarrow>
   sum_list (map snd (count_boxes ns bs d)) = sum_list (map snd d) + int (length bs)"
proof (induction bs arbitrary: d)
  case Nil
  then show ?case by simp
next
  case (Cons b bs)
  let ?k = "class_name_of ns (cls b)"
  have upd: "sum_list (map snd (AList.update ?k (dict_get d ?k 0 + 1) d)) = sum_list (map snd d) + 1"
    using Cons.prems
  proof (induction d)
    case Nil
    then show ?case by (simp add: dict_get_def)
  next
    case (Cons p d)
    then show ?case
      by (cases p) (auto simp: dict_get_def map_of_eq_None_iff image_iff split: option.splits)
  qed
  have "distinct (map fst (AList.update ?k (dict_get d ?k 0 + 1) d))"
    using Cons.prems by (simp add: distinct_update)
  from Cons.IH [OF this] upd show ?case by (simp add: Let_def)
qed

section \<open>The steps of the handler\<close>

lemma predict_accepted:
  assumes "model s = Some m" and "files req ''image'' = Some file"
    and "file_extension (filename file) \<in> allowed_extensions"
  shows "predict e req s = process e m file s"
proof -
  have "truthy file" using assms(3) by (rule allowed_truthy)
  then have "filename file \<noteq> []" by (simp add: truthy_def)
  with assms \<open>truthy file\<close> show ?thesis by (simp add: predict_def)
qed

lemma try_block_save_fails:
  assumes "save_out e = Fails msg left"
  shows "try_block e m file s =
           Inl (msg, s\<lparr>fs := (case left of None \<Rightarrow> fs s
                                 | Some partial \<Rightarrow> (fs s)(uploaded_filepath e file \<mapsto> partial)),
                        trace := trace s @ [FileSave (uploaded_filepath e file)]\<rparr>)"
  using assms by (cases left) (simp_all add: try_block_def write_file_def logged_def)

lemma try_block_predict_raises:
  assumes "save_out e = Done" and "predict_out e = Raises msg"
  shows "try_block e m file s =
           Inl (msg, s\<lparr>fs := (fs s)(uploaded_filepath e file \<mapsto> stream file),
                        trace := trace s @ [FileSave (uploaded_filepath e file),
                                            ModelPredict (uploaded_filepath e file)]\<rparr>)"
  using assms by (simp add: try_block_def write_file_def logged_def)

lemma try_block_plot_raises:
  assumes "save_out e = Done" and "predict_out e = Returns detections" and "plot_out e = Raises msg"
  shows "try_block e m file s =
           Inl (msg, s\<lparr>fs := (fs s)(uploaded_filepath e file \<mapsto> stream file),
                        trace := trace s @ [FileSave (uploaded_filepath e file),
                                            ModelPredict (uploaded_filepath e file), Plot]\<rparr>)"
  using assms by (simp add: try_block_def write_file_def logged_def)

lemma try_block_persist_fails:
  assumes "save_out e = Done" and "predict_out e = Returns detections"
    and "plot_out e = Returns result_img" and "persist_out e = Fails msg left"
  shows "try_block e m file s =
           Inl (msg, s\<lparr>fs := (case left of
                                   None \<Rightarrow> (fs s)(uploaded_filepath e file \<mapsto> stream file)
                                 | Some partial \<Rightarrow>
                                     (fs s)(uploaded_filepath e file \<mapsto> stream file,
                                            result_path e file \<mapsto> partial)),
                        trace := trace s @ [FileSave (uploaded_filepath e file),
                                            ModelPredict (uploaded_filepath e file), Plot,
                                            ImageSave (result_path e file)]\<rparr>)"
  using assms by (cases left) (simp_all add: try_block_def write_file_def logged_def)

lemma try_block_success:
  assumes "save_out e = Done" and "predict_out e = Returns detections"
    and "plot_out e = Returns result_img" and "persist_out e = Done"
  shows "try_block e m file s =
           Inr ((Json
                  [(''status'', JStr ''success''),
                   (''uploaded_image_url'', JStr (url_for_static (''uploads/'' @ unique_filename e file))),
                   (''result_image_url'', JStr (url_for_static (''results/'' @ result_filename e file))),
                   (''detection_stats'', JDict (count_detections (names m) detections)),
                   (''total_detections'', JInt (sum_list (map snd (count_detections (names m) detections)))),
                   (''filename'', JStr (unique_filename e file)),
                   (''timestamp'', JStr (timestamp e)),
                   (''file_size'', JInt (int (length (stream file))))], 200),
                s\<lparr>fs := (fs s)(uploaded_filepath e file \<mapsto> stream file,
                               result_path e file \<mapsto> result_img),
                  trace := trace s @ [FileSave (uploaded_filepath e file),
                                      ModelPredict (uploaded_filepath e file), Plot,
                                      ImageSave (result_path e file)]\<rparr>)"
  using assms paths_differ
  by (cases "count_detections (names m) detections = []")
     (simp_all add: try_block_def write_file_def logged_def Let_def)


lemma try_block_outcomes:
  obtains (save) msg left where "save_out e = Fails msg left"
  | (infer) msg where "save_out e = Done" "predict_out e = Raises msg"
  | (render) msg detections where "save_out e = Done" "predict_out e = Returns detections"
      "plot_out e = Raises msg"
  | (persist) msg left detections result_img where "save_out e = Done"
      "predict_out e = Returns detections" "plot_out e = Returns result_img"
      "persist_out e = Fails msg left"
  | (success) detections result_img where "save_out e = Done"
      "predict_out e = Returns detections" "plot_out e = Returns result_img"
      "persist_out e = Done"
proof (cases "save_out e")
  case Done
  show ?thesis
  proof (cases "predict_out e")
    case (Raises msg)
    with Done show ?thesis by (rule infer)
  next
    case (Returns detections)
    show ?thesis
    proof (cases "plot_out e")
      case (Raises msg)
      with Done Returns show ?thesis by (rule render)
    next
      case img: (Returns result_img)
      show ?thesis
      proof (cases "persist_out e")
        case d: Done
        from Done Returns img d show ?thesis by (rule success)
      next
        case (Fails msg left)
        from Done Returns img Fails show ?thesis by (rule persist)
      qed
    qed
  qed
next
  case (Fails msg left)
  then show ?thesis by (rule save)
qed

lemma handle_exception_response:
  "fst (handle_exception e p msg s) =
     error_response (''An error occurred during object detection: '' @ msg) 500"
  by (simp add: handle_exception_def Let_def)

lemma handle_exception_fs:
  "fs (snd (handle_exception e (Some path) msg s)) =
     (if remove_fails e then fs s else (fs s)(path := None))"
  by (auto simp: handle_exception_def Let_def logged_def)

lemma handle_exception_model:
  "model (snd (handle_exception e p msg s)) = model s"
  by (auto simp: handle_exception_def Let_def logged_def split: option.splits)

lemma handle_exception_trace:
  "trace (snd (handle_exception e (Some path) msg s)) =
     (if fs s path \<noteq> None then trace s @ [Remove path] else trace s)"
  by (auto simp: handle_exception_def Let_def logged_def)

section \<open>The three routes\<close>

lemma process_response:
  obtains (failed) msg where
      "fst (process e m file s) =
         error_response (''An error occurred during object detection: '' @ msg) 500"
  | (succeeded) fields where
      "fst (process e m file s) = (Json ((''status'', JStr ''success'') # fields), 200)"
proof (cases e rule: try_block_outcomes)
  case (save msg left)
  then have "fst (process e m file s) =
      error_response (''An error occurred during object detection: '' @ msg) 500"
    by (simp add: process_def try_block_save_fails handle_exception_response)
  then show ?thesis by (rule failed)
next
  case (infer msg)
  then have "fst (process e m file s) =
      error_response (''An error occurred during object detection: '' @ msg) 500"
    by (simp add: process_def try_block_predict_raises handle_exception_response)
  then show ?thesis by (rule failed)
next
  case (render msg detections)
  then have "fst (process e m file s) =
      error_response (''An error occurred during object detection: '' @ msg) 500"
    by (simp add: process_def try_block_plot_raises handle_exception_response)
  then show ?thesis by (rule failed)
next
  case (persist msg left detections result_img)
  then have "fst (process e m file s) =
      error_response (''An error occurred during object detection: '' @ msg) 500"
    by (simp add: process_def try_block_persist_fails handle_exception_response)
  then show ?thesis by (rule failed)
next
  case (success detections result_img)
  then show ?thesis
    by (intro succeeded) (simp add: process_def try_block_success)
qed

lemma process_model: "model (snd (process e m file s)) = model s"
proof (cases e rule: try_block_outcomes)
  case (save msg left)
  then show ?thesis
    by (simp add: process_def try_block_save_fails handle_exception_model)
next
  case (infer msg)
  then show ?thesis
    by (simp add: process_def try_block_predict_raises handle_exception_model)
next
  case (render msg detections)
  then show ?thesis
    by (simp add: process_def try_block_plot_raises handle_exception_model)
next
  case (persist msg left detections result_img)
  then show ?thesis
    by (simp add: process_def try_block_persist_fails handle_exception_model)
next
  case (success detections result_img)
  then show ?thesis
    by (simp add: process_def try_block_success)
qed

lemma predict_model: "model (snd (predict e req s)) = model s"
  by (simp add: predict_def process_model split: option.splits)

lemma handle_model: "model (snd (handle e r s)) = model s"
  by (cases r) (simp_all add: handle_def predict_model)

lemma predict_no_model:
  "model s = None \<Longrightarrow>
   predict e req s =
     (error_response ''Deep learning model not loaded. Please check server logs for details.'' 500, s)"
  by (simp add: predict_def)

lemma serve_no_model:
  assumes "model s = None"
  shows "serve rs s =
           (map (\<lambda>(e, r). case r of
                    GetIndex \<Rightarrow> index e
                  | PostPredict req \<Rightarrow>
                      error_response
                        ''Deep learning model not loaded. Please check server logs for details.'' 500
                  | GetHealth \<Rightarrow> health_check s) rs, s)"
proof (induction rs)
  case Nil
  show ?case by simp
next
  case (Cons p rs)
  obtain e r where p: "p = (e, r)" by (cases p)
  have "handle e r s =
          (case r of GetIndex \<Rightarrow> index e
           | PostPredict req \<Rightarrow>
               error_response
                 ''Deep learning model not loaded. Please check server logs for details.'' 500
           | GetHealth \<Rightarrow> health_check s, s)"
    using assms by (cases r) (simp_all add: handle_def predict_no_model)
  with Cons p show ?case by simp
qed

lemma serve_model: "model (snd (serve rs s)) = model s"
proof (induction rs arbitrary: s)
  case Nil
  show ?case by simp
next
  case (Cons p rs)
  obtain e r where p: "p = (e, r)" by (cases p)
  obtain resp s' where h: "handle e r s = (resp, s')" by (cases "handle e r s")
  then have "model s' = model s" using handle_model [of e r s] by simp
  moreover have "model (snd (serve rs s')) = model s'" by (rule Cons.IH)
  ultimately show ?case using p h by (simp add: split_beta)
qed

text \<open>
  Claim C3. While the global \<open>model\<close> is \<open>None\<close>, \<open>POST /predict\<close> answers 500 with the
  error body, whatever the request holds (the check comes before any validation), and
  leaves the disk and the call log as they were. No handler assigns \<open>model\<close>, so over any
  sequence of requests served by the process every \<open>POST /predict\<close> gets that answer and
  the state at the end is the state at the start.
\<close>

theorem predict_without_model:
  assumes "model s = None"
  shows "predict e req s =
           (error_response ''Deep learning model not loaded. Please check server logs for details.'' 500, s)
       \<and> error_response ''Deep learning model not loaded. Please check server logs for details.'' 500 =
           (Json [(''error'', JStr ''Deep learning model not loaded. Please check server logs for details.''),
                  (''status'', JStr ''error'')], 500)
       \<and> serve rs s =
           (map (\<lambda>(e', r). case r of
                    GetIndex \<Rightarrow> index e'
                  | PostPredict req' \<Rightarrow>
                      error_response
                        ''Deep learning model not loaded. Please check server logs for details.'' 500
                  | GetHealth \<Rightarrow> health_check s) rs, s)"
  using assms by (simp add: predict_no_model serve_no_model error_response_def)

theorem predict_without_model_witness:
  "model (sample_server\<lparr>model := None\<rparr>) = None
   \<and> predict sample_env sample_request (sample_server\<lparr>model := None\<rparr>) =
       ((Json [(''error'', JStr ''Deep learning model not loaded. Please check server logs for details.''),
               (''status'', JStr ''error'')], 500),
        sample_server\<lparr>model := None\<rparr>)
   \<and> serve [(sample_env, PostPredict sample_request), (sample_env, GetHealth),
             (sample_env, PostPredict \<lparr>files = Map.empty\<rparr>)] (sample_server\<lparr>model := None\<rparr>) =
       ([(Json [(''error'', JStr ''Deep learning model not loaded. Please check server logs for details.''),
                (''status'', JStr ''error'')], 500),
         (Json [(''status'', JStr ''degraded''), (''model_loaded'', JBool False),
                (''service'', JStr ''SkyVision Object Detection API'')], 200),
         (Json [(''error'', JStr ''Deep learning model not loaded. Please check server logs for details.''),
                (''status'', JStr ''error'')], 500)],
        sample_server\<lparr>model := None\<rparr>)"
  using predict_without_model [of "sample_server\<lparr>model := None\<rparr>" sample_env sample_request
      "[(sample_env, PostPredict sample_request), (sample_env, GetHealth),
        (sample_env, PostPredict \<lparr>files = Map.empty\<rparr>)]"]
  by (simp add: error_response_def health_check_def)

text \<open>
  Claim C7. \<open>GET /health\<close> always answers 200; its body says \<open>healthy\<close> and
  \<open>model_loaded: true\<close> exactly when the model is present, \<open>degraded\<close> and
  \<open>model_loaded: false\<close> exactly when it is absent; the handler changes nothing.
\<close>

theorem health_check_reports_model:
  "snd (health_check s) = 200
   \<and> (\<exists>fields. fst (health_check s) = Json fields
        \<and> map fst fields = [''status'', ''model_loaded'', ''service'']
        \<and> ((map_of fields ''status'' = Some (JStr ''healthy'')
              \<and> map_of fields ''model_loaded'' = Some (JBool True)) = (model s \<noteq> None))
        \<and> ((map_of fields ''status'' = Some (JStr ''degraded'')
              \<and> map_of fields ''model_loaded'' = Some (JBool False)) = (model s = None)))
   \<and> handle e GetHealth s = (health_check s, s)"
  by (simp add: health_check_def handle_def)

text \<open>
  Claim C9. The last \<open>return\<close> of \<open>predict\<close>, the 500 response "Something went wrong
  during file upload or processing.", is never reached: a file whose extension passed the
  check has a dot in its name, so its name is not empty and the file is truthy; every
  such request is answered by the \<open>try\<close> statement.
\<close>

theorem predict_fallback_unreachable:
  "fst (predict e req s) \<noteq>
     error_response ''Something went wrong during file upload or processing.'' 500
   \<and> (file_extension (filename file) \<in> allowed_extensions \<longrightarrow> truthy file)
   \<and> (model s = Some m \<and> files req ''image'' = Some file
        \<and> file_extension (filename file) \<in> allowed_extensions
        \<longrightarrow> predict e req s = process e m file s)"
proof -
  have "fst (process e' m' file' s') \<noteq>
          error_response ''Something went wrong during file upload or processing.'' 500"
    for e' m' file' s'
    by (cases e' m' file' s' rule: process_response) (simp_all add: error_response_def)
  then have "fst (predict e req s) \<noteq>
     error_response ''Something went wrong during file upload or processing.'' 500"
    using allowed_truthy
    by (auto simp: predict_def error_response_def split: option.splits)
  then show ?thesis
    using allowed_truthy predict_accepted by blast
qed


lemma sample_file_allowed: "file_extension (filename sample_file) \<in> allowed_extensions"
  by (simp add: sample_file_def file_extension_def rsplit1_def lower_def lower_char_def
      upper_letters_def lower_letters_def allowed_extensions_def)

theorem predict_fallback_unreachable_witness:
  "file_extension (filename sample_file) \<in> allowed_extensions
   \<and> truthy sample_file
   \<and> model sample_server = Some sample_model
   \<and> files sample_request ''image'' = Some sample_file
   \<and> predict sample_env sample_request sample_server =
       process sample_env sample_model sample_file sample_server
   \<and> fst (predict sample_env sample_request sample_server) \<noteq>
       error_response ''Something went wrong during file upload or processing.'' 500"
proof -
  have loaded: "model sample_server = Some sample_model"
    by (simp add: sample_server_def)
  have part: "files sample_request ''image'' = Some sample_file"
    by (simp add: sample_request_def)
  show ?thesis
    using predict_fallback_unreachable
      [of sample_env sample_request sample_server sample_file sample_model]
      sample_file_allowed loaded part
    by blast
qed

section \<open>Validation of the upload\<close>

lemma process_status: "snd (fst (process e m file s)) \<in> {200, 500}"
  by (cases e m "file" s rule: process_response) (simp_all add: error_response_def)

lemma file_extension_no_dot: "CHR ''.'' \<notin> set name \<Longrightarrow> file_extension name = []"
  by (simp add: file_extension_def)

lemma file_extension_after_last_dot:
  assumes "CHR ''.'' \<notin> set b"
  shows "file_extension (a @ ''.'' @ b) = lower b"
proof -
  have "rsplit1 (CHR ''.'') (a @ [CHR ''.''] @ b) = [a, b]"
    using assms by (intro rsplit1_unique) simp_all
  then show ?thesis by (simp add: file_extension_def)
qed

lemma sample_env_ok: "env_ok sample_env"
  by (simp add: sample_env_def env_ok_def hex_shape_def hex_class_def allowed_extensions_def
      list_all_iff)

lemma allowed_extension_letters:
  assumes "x \<in> allowed_extensions"
  shows "set x \<subseteq> set lower_letters"
  using assms by (auto simp: allowed_extensions_def lower_letters_def)

lemma allowed_extension_spec:
  "(file_extension name \<in> allowed_extensions) = spec_extension_allowed name"
proof
  assume allowed: "file_extension name \<in> allowed_extensions"
  then have "CHR ''.'' \<in> set name" by (rule allowed_has_dot)
  from rsplit1_parts [OF this] obtain stem ext where
    parts: "name = stem @ [CHR ''.''] @ ext" "CHR ''.'' \<notin> set ext"
      "rsplit1 (CHR ''.'') name = [stem, ext]"
    by blast
  have ext: "file_extension name = lower ext"
    using parts(3) \<open>CHR ''.'' \<in> set name\<close> by (simp add: file_extension_def)
  have "set (lower ext) \<subseteq> set lower_letters"
    using allowed ext allowed_extension_letters by simp
  then have "spec_equal_ignoring_case ext (lower ext)"
    using lower_equal_ignoring_case [of "lower ext" ext] by simp
  moreover have "lower ext \<in> {''png'', ''jpg'', ''jpeg'', ''gif'', ''bmp'', ''tiff'', ''webp''}"
    using allowed ext by (simp add: allowed_extensions_def)
  ultimately show "spec_extension_allowed name"
    unfolding spec_extension_allowed_def using parts(1,2) by (intro exI [of _ stem] exI [of _ ext] exI [of _ "lower ext"]) simp
next
  assume "spec_extension_allowed name"
  then obtain stem ext x where
    parts: "name = stem @ ''.'' @ ext" "CHR ''.'' \<notin> set ext"
    and x: "x \<in> allowed_extensions" and same: "spec_equal_ignoring_case ext x"
    unfolding spec_extension_allowed_def allowed_extensions_def by blast
  have "lower ext = x"
    using lower_equal_ignoring_case [OF allowed_extension_letters [OF x], of ext] same by simp
  moreover have "file_extension name = lower ext"
    unfolding parts(1) using parts(2) by (rule file_extension_after_last_dot)
  ultimately show "file_extension name \<in> allowed_extensions"
    using x by simp
qed

text \<open>
  Claim C2. With a model loaded, \<open>POST /predict\<close> answers 400 exactly when the field
  \<open>image\<close> is absent, or its filename is empty, or its extension is not one of the seven
  allowed ones; the extension is the text after the last dot of the name, a name without
  a dot has none, and it is compared ignoring case. Each of the three cases has its own
  message (the third lists the allowed extensions, in the order the set is iterated), and
  in each the state is returned as it was: nothing is written and the model is not
  called. The program's test, \<open>file_extension\<close> with \<open>lower\<close>, decides exactly
  \<open>spec_extension_allowed\<close>.
\<close>

theorem predict_validation:
  assumes "model s = Some m" and "env_ok e"
  shows
    "(snd (fst (predict e req s)) = 400) =
       (files req ''image'' = None
        \<or> (\<exists>file. files req ''image'' = Some file
              \<and> (filename file = [] \<or> \<not> spec_extension_allowed (filename file))))
     \<and> (files req ''image'' = None \<longrightarrow>
          predict e req s =
            ((Json [(''error'', JStr ''No image file part in the request.''),
                    (''status'', JStr ''error'')], 400), s))
     \<and> (\<forall>file. files req ''image'' = Some file \<and> filename file = [] \<longrightarrow>
          predict e req s =
            ((Json [(''error'', JStr ''No selected file.''), (''status'', JStr ''error'')], 400), s))
     \<and> (\<forall>file. files req ''image'' = Some file \<and> filename file \<noteq> []
              \<and> \<not> spec_extension_allowed (filename file) \<longrightarrow>
          predict e req s =
            ((Json [(''error'', JStr (''Invalid file type. Supported formats: ''
                                      @ join '', '' (ext_iter e))),
                    (''status'', JStr ''error'')], 400), s))
     \<and> distinct [''No image file part in the request.'', ''No selected file.'',
                  ''Invalid file type. Supported formats: '' @ join '', '' (ext_iter e)]
     \<and> distinct (ext_iter e)
     \<and> set (ext_iter e) = {''png'', ''jpg'', ''jpeg'', ''gif'', ''bmp'', ''tiff'', ''webp''}
     \<and> allowed_extensions = {''png'', ''jpg'', ''jpeg'', ''gif'', ''bmp'', ''tiff'', ''webp''}
     \<and> (\<forall>name. (file_extension name \<in> allowed_extensions) = spec_extension_allowed name)
     \<and> (\<forall>name. CHR ''.'' \<notin> set name \<longrightarrow> file_extension name = [])
     \<and> (\<forall>a b. CHR ''.'' \<notin> set b \<longrightarrow> file_extension (a @ ''.'' @ b) = lower b)"
proof -
  have iter: "distinct (ext_iter e)"
      "set (ext_iter e) = {''png'', ''jpg'', ''jpeg'', ''gif'', ''bmp'', ''tiff'', ''webp''}"
    using assms(2) by (simp_all add: env_ok_def allowed_extensions_def)
  have absent: "predict e req s =
        ((Json [(''error'', JStr ''No image file part in the request.''),
                (''status'', JStr ''error'')], 400), s)"
    if "files req ''image'' = None"
    using that assms(1) by (simp add: predict_def error_response_def)
  have empty: "predict e req s =
        ((Json [(''error'', JStr ''No selected file.''), (''status'', JStr ''error'')], 400), s)"
    if "files req ''image'' = Some upload" "filename upload = []" for upload
    using that assms(1) by (simp add: predict_def error_response_def)
  have unsupported: "predict e req s =
        ((Json [(''error'', JStr (''Invalid file type. Supported formats: ''
                                  @ join '', '' (ext_iter e))),
                (''status'', JStr ''error'')], 400), s)"
    if "files req ''image'' = Some upload" "filename upload \<noteq> []"
      "\<not> spec_extension_allowed (filename upload)" for upload
    using that assms(1) by (simp add: predict_def error_response_def allowed_extension_spec)
  have accepted: "snd (fst (predict e req s)) \<noteq> 400"
    if "files req ''image'' = Some upload" "filename upload \<noteq> []"
      "spec_extension_allowed (filename upload)" for upload
  proof -
    have "file_extension (filename upload) \<in> allowed_extensions"
      using that(3) by (simp add: allowed_extension_spec)
    with assms(1) that(1) have "predict e req s = process e m upload s"
      by (rule predict_accepted)
    then show ?thesis using process_status [of e m upload s] by auto
  qed
  have "(snd (fst (predict e req s)) = 400) =
       (files req ''image'' = None
        \<or> (\<exists>file. files req ''image'' = Some file
              \<and> (filename file = [] \<or> \<not> spec_extension_allowed (filename file))))"
  proof (cases "files req ''image''")
    case None
    then show ?thesis using absent by simp
  next
    case (Some upload)
    then show ?thesis
      using empty [of upload] unsupported [of upload] accepted [of upload]
      by (cases "filename upload = []"; cases "spec_extension_allowed (filename upload)")
         simp_all
  qed
  moreover have "distinct [''No image file part in the request.'', ''No selected file.'',
                  ''Invalid file type. Supported formats: '' @ join '', '' (ext_iter e)]"
    by simp
  ultimately show ?thesis
    using iter absent empty unsupported file_extension_no_dot file_extension_after_last_dot
      allowed_extension_spec
    by (simp add: allowed_extensions_def)
qed

theorem predict_validation_witness:
  "model sample_server = Some sample_model \<and> env_ok sample_env
   \<and> file_extension ''notes.txt'' = ''txt''
   \<and> \<not> spec_extension_allowed ''notes.txt''
   \<and> predict sample_env
         \<lparr>files = [''image'' \<mapsto> \<lparr>filename = ''notes.txt'', stream = ''hello''\<rparr>]\<rparr> sample_server =
       ((Json [(''error'', JStr ''Invalid file type. Supported formats: png, jpg, jpeg, gif, bmp, tiff, webp''),
               (''status'', JStr ''error'')], 400), sample_server)
   \<and> files sample_request ''image'' = Some sample_file
   \<and> filename sample_file = ''my cat.JPG''
   \<and> spec_extension_allowed ''my cat.JPG''
   \<and> snd (fst (predict sample_env sample_request sample_server)) \<noteq> 400"
proof -
  let ?file = "\<lparr>filename = ''notes.txt'', stream = ''hello''\<rparr>"
  let ?req = "\<lparr>files = [''image'' \<mapsto> ?file]\<rparr>"
  have loaded: "model sample_server = Some sample_model"
    by (simp add: sample_server_def)
  note checked = predict_validation [OF loaded sample_env_ok]
  have ext: "file_extension ''notes.txt'' = ''txt''"
    by (simp add: file_extension_def rsplit1_def lower_def lower_char_def
        upper_letters_def lower_letters_def)
  have "file_extension ''notes.txt'' \<notin> allowed_extensions"
    by (simp add: ext allowed_extensions_def)
  with checked [of ?req] have bad: "\<not> spec_extension_allowed ''notes.txt''"
    by blast
  have part: "files ?req ''image'' = Some ?file" "filename ?file \<noteq> []"
    "\<not> spec_extension_allowed (filename ?file)"
    using bad by simp_all
  have order: "join '', '' (ext_iter sample_env) = ''png, jpg, jpeg, gif, bmp, tiff, webp''"
    by (simp add: sample_env_def)
  from checked [of ?req] part
  have rejected: "predict sample_env ?req sample_server =
       ((Json [(''error'', JStr (''Invalid file type. Supported formats: ''
                                  @ join '', '' (ext_iter sample_env))),
               (''status'', JStr ''error'')], 400), sample_server)"
    by blast
  have upload: "files sample_request ''image'' = Some sample_file"
    "filename sample_file = ''my cat.JPG''"
    by (simp_all add: sample_request_def sample_file_def)
  have "spec_equal_ignoring_case ''JPG'' ''jpg''"
    by (simp add: spec_equal_ignoring_case_def spec_same_letter_def
        upper_letters_def lower_letters_def)
  then have good: "spec_extension_allowed ''my cat.JPG''"
    unfolding spec_extension_allowed_def
    by (intro exI [of _ "''my cat''"] exI [of _ "''JPG''"] exI [of _ "''jpg''"]) simp
  have "\<not> (files sample_request ''image'' = None
        \<or> (\<exists>upload. files sample_request ''image'' = Some upload
              \<and> (filename upload = [] \<or> \<not> spec_extension_allowed (filename upload))))"
    using upload good by auto
  with checked [of sample_request]
  have passed: "snd (fst (predict sample_env sample_request sample_server)) \<noteq> 400"
    by blast
  show ?thesis
    using loaded sample_env_ok ext bad rejected order upload good passed by simp
qed

section \<open>Failure and success of the processing steps\<close>

text \<open>
  Claim C4. When a step of the \<open>try\<close> block raises after validation (saving the upload,
  inference, rendering, or saving the result image), the handler answers 500 with a body
  that carries the message of the exception after a fixed prefix. It then removes the
  file at the upload path if one exists: unless \<open>os.remove\<close> fails the path is absent
  from the disk afterwards, and when \<open>os.remove\<close> fails the failure is passed over, the
  disk stays as the failing step left it and the answer is the same.
\<close>

theorem predict_exception_cleanup:
  assumes "model s = Some m" and "files req ''image'' = Some file"
    and "file_extension (filename file) \<in> allowed_extensions"
    and "(\<exists>left. save_out e = Fails msg left)
         \<or> (save_out e = Done \<and> predict_out e = Raises msg)
         \<or> (save_out e = Done \<and> (\<exists>detections. predict_out e = Returns detections)
              \<and> plot_out e = Raises msg)
         \<or> (save_out e = Done \<and> (\<exists>detections. predict_out e = Returns detections)
              \<and> (\<exists>result_img. plot_out e = Returns result_img)
              \<and> (\<exists>left. persist_out e = Fails msg left))"
  shows "fst (predict e req s) =
           (Json [(''error'', JStr (''An error occurred during object detection: '' @ msg)),
                  (''status'', JStr ''error'')], 500)
       \<and> (\<exists>s1. try_block e m file s = Inl (msg, s1)
             \<and> fs (snd (predict e req s)) =
                 (if remove_fails e then fs s1 else (fs s1)(uploaded_filepath e file := None))
             \<and> trace (snd (predict e req s)) =
                 (if fs s1 (uploaded_filepath e file) \<noteq> None
                  then trace s1 @ [Remove (uploaded_filepath e file)] else trace s1)
             \<and> (save_out e = Done \<longrightarrow> fs s1 (uploaded_filepath e file) = Some (stream file)))
       \<and> (\<not> remove_fails e \<longrightarrow> fs (snd (predict e req s)) (uploaded_filepath e file) = None)
       \<and> (\<forall>path. path \<noteq> uploaded_filepath e file \<and> path \<noteq> result_path e file \<longrightarrow>
             fs (snd (predict e req s)) path = fs s path)"
proof -
  let ?p = "uploaded_filepath e file"
  have run: "predict e req s = process e m file s"
    using assms(1-3) by (rule predict_accepted)
  obtain s1 where raised: "try_block e m file s = Inl (msg, s1)"
    and written: "save_out e = Done \<longrightarrow> fs s1 ?p = Some (stream file)"
    and others: "\<forall>path. path \<noteq> ?p \<and> path \<noteq> result_path e file \<longrightarrow> fs s1 path = fs s path"
  proof -
    consider (save) left where "save_out e = Fails msg left"
      | (infer) "save_out e = Done" "predict_out e = Raises msg"
      | (render) detections where "save_out e = Done" "predict_out e = Returns detections"
          "plot_out e = Raises msg"
      | (persist) detections result_img left where "save_out e = Done"
          "predict_out e = Returns detections" "plot_out e = Returns result_img"
          "persist_out e = Fails msg left"
      using assms(4) by blast
    then show ?thesis
    proof cases
      case save
      from try_block_save_fails [OF save(1), of m "file" s] show ?thesis
        by (intro that [OF _ _ _]) (auto simp: save split: option.splits)
    next
      case infer
      from try_block_predict_raises [OF infer, of m "file" s] show ?thesis
        by (intro that [OF _ _ _]) (auto simp: infer)
    next
      case render
      from try_block_plot_raises [OF render, of m "file" s] show ?thesis
        by (intro that [OF _ _ _]) (auto simp: render)
    next
      case persist
      from try_block_persist_fails [OF persist, of m "file" s] paths_differ [of e "file" e "file"]
      show ?thesis
        by (intro that [OF _ _ _]) (auto simp: persist split: option.splits)
    qed
  qed
  have resp: "predict e req s = handle_exception e (Some ?p) msg s1"
    using run raised by (simp add: process_def)
  have "fst (predict e req s) =
           (Json [(''error'', JStr (''An error occurred during object detection: '' @ msg)),
                  (''status'', JStr ''error'')], 500)"
    by (simp add: resp handle_exception_response error_response_def)
  moreover have disk: "fs (snd (predict e req s)) = (if remove_fails e then fs s1 else (fs s1)(?p := None))"
    by (simp add: resp handle_exception_fs)
  moreover have "trace (snd (predict e req s)) =
                 (if fs s1 ?p \<noteq> None then trace s1 @ [Remove ?p] else trace s1)"
    by (simp add: resp handle_exception_trace)
  moreover have "\<not> remove_fails e \<longrightarrow> fs (snd (predict e req s)) ?p = None"
    by (simp add: disk)
  moreover have "\<forall>path. path \<noteq> ?p \<and> path \<noteq> result_path e file \<longrightarrow>
             fs (snd (predict e req s)) path = fs s path"
    using others by (simp add: disk)
  ultimately show ?thesis using raised written by blast
qed


lemma sample_upload_path:
  "uploaded_filepath (sample_env\<lparr>predict_out := Raises ''CUDA out of memory''\<rparr>) sample_file =
     ''static/uploads/my_cat_1700000000_3f2a9c1e.jpg''"
  by (simp add: uploaded_filepath_def path_join_def UPLOAD_FOLDER_def unique_filename_def
      base_name_def timestamp_def unique_id_def extension_def sample_env_def sample_file_def
      secure_filename_def strip_def ascii_strip_def split_def replace_def is_ascii_def
      is_space_def safe_chars_def upper_letters_def lower_letters_def digit_chars_def
      rsplit1_def lower_def lower_char_def str_int_def str_nat.simps digit_char_def)

theorem predict_exception_cleanup_witness:
  "model sample_server = Some sample_model
   \<and> files sample_request ''image'' = Some sample_file
   \<and> file_extension (filename sample_file) \<in> allowed_extensions
   \<and> save_out (sample_env\<lparr>predict_out := Raises ''CUDA out of memory''\<rparr>) = Done
   \<and> predict_out (sample_env\<lparr>predict_out := Raises ''CUDA out of memory''\<rparr>) =
       Raises ''CUDA out of memory''
   \<and> fst (predict (sample_env\<lparr>predict_out := Raises ''CUDA out of memory''\<rparr>)
              sample_request sample_server) =
       (Json [(''error'', JStr ''An error occurred during object detection: CUDA out of memory''),
              (''status'', JStr ''error'')], 500)
   \<and> fs (snd (predict (sample_env\<lparr>predict_out := Raises ''CUDA out of memory''\<rparr>)
                  sample_request sample_server))
         ''static/uploads/my_cat_1700000000_3f2a9c1e.jpg'' = None"
proof -
  let ?e = "sample_env\<lparr>predict_out := Raises ''CUDA out of memory''\<rparr>"
  have loaded: "model sample_server = Some sample_model"
    by (simp add: sample_server_def)
  have part: "files sample_request ''image'' = Some sample_file"
    by (simp add: sample_request_def)
  have steps: "save_out ?e = Done" "predict_out ?e = Raises ''CUDA out of memory''"
    "\<not> remove_fails ?e"
    by (simp_all add: sample_env_def)
  from steps have raised:
    "(\<exists>left. save_out ?e = Fails ''CUDA out of memory'' left)
     \<or> (save_out ?e = Done \<and> predict_out ?e = Raises ''CUDA out of memory'')
     \<or> (save_out ?e = Done \<and> (\<exists>detections. predict_out ?e = Returns detections)
          \<and> plot_out ?e = Raises ''CUDA out of memory'')
     \<or> (save_out ?e = Done \<and> (\<exists>detections. predict_out ?e = Returns detections)
          \<and> (\<exists>result_img. plot_out ?e = Returns result_img)
          \<and> (\<exists>left. persist_out ?e = Fails ''CUDA out of memory'' left))"
    by blast
  from predict_exception_cleanup [OF loaded part sample_file_allowed raised] steps(3)
  have "fst (predict ?e sample_request sample_server) =
          (Json [(''error'', JStr (''An error occurred during object detection: ''
                                    @ ''CUDA out of memory'')),
                 (''status'', JStr ''error'')], 500)"
    and "fs (snd (predict ?e sample_request sample_server)) (uploaded_filepath ?e sample_file) = None"
    by blast+
  then show ?thesis
    using loaded part sample_file_allowed steps(1,2) by (simp add: sample_upload_path)
qed

text \<open>
  Claim C5. A response with status 200 is the success payload, with exactly eight fields
  in this order: the status flag, the URL of the stored upload, the URL of the stored
  result image, the mapping from class name to count, the total (the sum of the counts,
  which is the number of detections and 0 for an empty mapping), the allocated filename,
  the timestamp, and the size of the upload as it is on disk. Both URLs are the paths of
  files that are on disk after the request.
\<close>

theorem predict_success_payload:
  assumes "snd (fst (predict e req s)) = 200"
  shows "\<exists>m file detections result_img.
           model s = Some m \<and> files req ''image'' = Some file
           \<and> file_extension (filename file) \<in> allowed_extensions
           \<and> save_out e = Done \<and> predict_out e = Returns detections
           \<and> plot_out e = Returns result_img \<and> persist_out e = Done
           \<and> fst (fst (predict e req s)) =
               Json [(''status'', JStr ''success''),
                     (''uploaded_image_url'', JStr (''/'' @ uploaded_filepath e file)),
                     (''result_image_url'', JStr (''/'' @ result_path e file)),
                     (''detection_stats'', JDict (count_detections (names m) detections)),
                     (''total_detections'',
                        JInt (sum_list (map snd (count_detections (names m) detections)))),
                     (''filename'', JStr (unique_filename e file)),
                     (''timestamp'', JStr (str_int (time_now e))),
                     (''file_size'', JInt (int (length (stream file))))]
           \<and> sum_list (map snd (count_detections (names m) detections)) =
               int (length (case detections of None \<Rightarrow> [] | Some bs \<Rightarrow> bs))
           \<and> fs (snd (predict e req s)) (uploaded_filepath e file) = Some (stream file)
           \<and> fs (snd (predict e req s)) (result_path e file) = Some result_img"
proof -
  obtain m where loaded: "model s = Some m"
    using assms by (cases "model s") (simp_all add: predict_def error_response_def)
  obtain upload where part: "files req ''image'' = Some upload"
    using assms loaded by (cases "files req ''image''") (simp_all add: predict_def error_response_def)
  have allowed: "file_extension (filename upload) \<in> allowed_extensions"
    using assms loaded part by (auto simp: predict_def error_response_def split: if_splits)
  have run: "predict e req s = process e m upload s"
    using loaded part allowed by (rule predict_accepted)
  have total: "sum_list (map snd (count_detections (names m) detections)) =
      int (length (case detections of None \<Rightarrow> [] | Some bs \<Rightarrow> bs))" for detections
    using sum_count_boxes [of "[]" "names m"]
    by (auto simp: count_detections_def split: option.splits)
  show ?thesis
  proof (cases e rule: try_block_outcomes)
    case (save msg left)
    with assms show ?thesis
      by (simp add: run process_def try_block_save_fails handle_exception_response error_response_def)
  next
    case (infer msg)
    with assms show ?thesis
      by (simp add: run process_def try_block_predict_raises handle_exception_response error_response_def)
  next
    case (render msg detections)
    with assms show ?thesis
      by (simp add: run process_def try_block_plot_raises handle_exception_response error_response_def)
  next
    case (persist msg left detections result_img)
    with assms show ?thesis
      by (simp add: run process_def try_block_persist_fails handle_exception_response error_response_def)
  next
    case (success detections result_img)
    have "process e m upload s = (case try_block e m upload s of
             Inl (msg, s') \<Rightarrow> handle_exception e (Some (uploaded_filepath e upload)) msg s'
           | Inr r \<Rightarrow> r)"
      by (simp add: process_def)
    with try_block_success [OF success, of m upload s] paths_differ [of e upload e upload]
    have "fst (fst (predict e req s)) =
               Json [(''status'', JStr ''success''),
                     (''uploaded_image_url'', JStr (''/'' @ uploaded_filepath e upload)),
                     (''result_image_url'', JStr (''/'' @ result_path e upload)),
                     (''detection_stats'', JDict (count_detections (names m) detections)),
                     (''total_detections'',
                        JInt (sum_list (map snd (count_detections (names m) detections)))),
                     (''filename'', JStr (unique_filename e upload)),
                     (''timestamp'', JStr (str_int (time_now e))),
                     (''file_size'', JInt (int (length (stream upload))))]"
      and "fs (snd (predict e req s)) (uploaded_filepath e upload) = Some (stream upload)"
      and "fs (snd (predict e req s)) (result_path e upload) = Some result_img"
      by (simp_all add: run url_for_static_def uploaded_filepath_def result_path_def
          path_join_def UPLOAD_FOLDER_def RESULT_FOLDER_def timestamp_def)
    with loaded part allowed success total [of detections] show ?thesis by blast
  qed
qed


lemma sample_names:
  "unique_filename sample_env sample_file = ''my_cat_1700000000_3f2a9c1e.jpg''"
  "result_filename sample_env sample_file = ''result_my_cat_1700000000_3f2a9c1e.jpg''"
  by (simp_all add: unique_filename_def result_filename_def
      base_name_def timestamp_def unique_id_def extension_def sample_env_def sample_file_def
      secure_filename_def strip_def ascii_strip_def split_def replace_def is_ascii_def
      is_space_def safe_chars_def upper_letters_def lower_letters_def digit_chars_def
      rsplit1_def lower_def lower_char_def str_int_def str_nat.simps digit_char_def)

lemma sample_paths:
  "uploaded_filepath sample_env sample_file = ''static/uploads/my_cat_1700000000_3f2a9c1e.jpg''"
  "result_path sample_env sample_file = ''static/results/result_my_cat_1700000000_3f2a9c1e.jpg''"
  by (simp_all add: uploaded_filepath_def result_path_def path_join_def UPLOAD_FOLDER_def
      RESULT_FOLDER_def sample_names)

lemma sample_class_names:
  "class_name_of (names sample_model) 0 = ''plane''"
  "class_name_of (names sample_model) 5 = ''Class_5''"
proof -
  have "str_int 5 = ''5''" by (simp add: str_int_def str_nat.simps digit_char_def)
  then show "class_name_of (names sample_model) 0 = ''plane''"
    and "class_name_of (names sample_model) 5 = ''Class_5''"
    by (simp_all add: class_name_of_def sample_model_def)
qed

lemma sample_stats:
  "count_detections (names sample_model) (Some [\<lparr>cls = 0\<rparr>, \<lparr>cls = 5\<rparr>, \<lparr>cls = 0\<rparr>]) =
     [(''plane'', 2), (''Class_5'', 1)]"
  by (simp add: count_detections_def sample_class_names dict_get_def)

lemma sample_steps:
  "save_out sample_env = Done"
  "predict_out sample_env = Returns (Some [\<lparr>cls = 0\<rparr>, \<lparr>cls = 5\<rparr>, \<lparr>cls = 0\<rparr>])"
  "plot_out sample_env = Returns ''IMG''"
  "persist_out sample_env = Done"
  "time_now sample_env = 1700000000"
  by (simp_all add: sample_env_def)

lemma sample_loaded: "model sample_server = Some sample_model"
  by (simp add: sample_server_def)

lemma sample_part: "files sample_request ''image'' = Some sample_file"
  by (simp add: sample_request_def)

lemma sample_predict_status: "snd (fst (predict sample_env sample_request sample_server)) = 200"
proof -
  have "predict sample_env sample_request sample_server =
          process sample_env sample_model sample_file sample_server"
    using sample_loaded sample_part sample_file_allowed by (rule predict_accepted)
  then show ?thesis
    using try_block_success [OF sample_steps(1-4), of sample_model sample_file sample_server]
    by (simp add: process_def)
qed

theorem predict_success_payload_witness:
  "snd (fst (predict sample_env sample_request sample_server)) = 200
   \<and> fst (fst (predict sample_env sample_request sample_server)) =
       Json [(''status'', JStr ''success''),
             (''uploaded_image_url'', JStr ''/static/uploads/my_cat_1700000000_3f2a9c1e.jpg''),
             (''result_image_url'', JStr ''/static/results/result_my_cat_1700000000_3f2a9c1e.jpg''),
             (''detection_stats'', JDict [(''plane'', 2), (''Class_5'', 1)]),
             (''total_detections'', JInt 3),
             (''filename'', JStr ''my_cat_1700000000_3f2a9c1e.jpg''),
             (''timestamp'', JStr ''1700000000''),
             (''file_size'', JInt 4)]
   \<and> fs (snd (predict sample_env sample_request sample_server))
         ''static/uploads/my_cat_1700000000_3f2a9c1e.jpg'' = Some ''abcd''
   \<and> fs (snd (predict sample_env sample_request sample_server))
         ''static/results/result_my_cat_1700000000_3f2a9c1e.jpg'' = Some ''IMG''"
proof -
  let ?r = "predict sample_env sample_request sample_server"
  from predict_success_payload [OF sample_predict_status]
  obtain m upload detections result_img where
    m: "model sample_server = Some m" and upload: "files sample_request ''image'' = Some upload"
    and steps: "predict_out sample_env = Returns detections" "plot_out sample_env = Returns result_img"
    and body: "fst (fst ?r) =
               Json [(''status'', JStr ''success''),
                     (''uploaded_image_url'', JStr (''/'' @ uploaded_filepath sample_env upload)),
                     (''result_image_url'', JStr (''/'' @ result_path sample_env upload)),
                     (''detection_stats'', JDict (count_detections (names m) detections)),
                     (''total_detections'',
                        JInt (sum_list (map snd (count_detections (names m) detections)))),
                     (''filename'', JStr (unique_filename sample_env upload)),
                     (''timestamp'', JStr (str_int (time_now sample_env))),
                     (''file_size'', JInt (int (length (stream upload))))]"
    and disk: "fs (snd ?r) (uploaded_filepath sample_env upload) = Some (stream upload)"
      "fs (snd ?r) (result_path sample_env upload) = Some result_img"
    by blast
  have "m = sample_model" using m sample_loaded by simp
  moreover have "upload = sample_file" using upload sample_part by simp
  moreover have "detections = Some [\<lparr>cls = 0\<rparr>, \<lparr>cls = 5\<rparr>, \<lparr>cls = 0\<rparr>]" "result_img = ''IMG''"
    using steps sample_steps by simp_all
  moreover have "str_int 1700000000 = ''1700000000''"
    by (simp add: str_int_def str_nat.simps digit_char_def)
  moreover have "stream sample_file = ''abcd''" by (simp add: sample_file_def)
  ultimately show ?thesis
    using body disk sample_predict_status
    by (simp add: sample_paths sample_names sample_stats sample_steps)
qed

section \<open>Error responses and the calls of one request\<close>

lemma process_calls:
  "\<exists>k. (trace (snd (process e m file s)) =
             trace s @ take k [FileSave (uploaded_filepath e file),
                               ModelPredict (uploaded_filepath e file), Plot,
                               ImageSave (result_path e file)]
          \<or> trace (snd (process e m file s)) =
             trace s @ take k [FileSave (uploaded_filepath e file),
                               ModelPredict (uploaded_filepath e file), Plot,
                               ImageSave (result_path e file)]
                     @ [Remove (uploaded_filepath e file)])
        \<and> (save_out e \<noteq> Done \<longrightarrow> k \<le> 1)
        \<and> ((\<exists>msg. predict_out e = Raises msg) \<longrightarrow> k \<le> 2)
        \<and> ((\<exists>msg. plot_out e = Raises msg) \<longrightarrow> k \<le> 3)
        \<and> (snd (fst (process e m file s)) = 200) =
            (save_out e = Done \<and> (\<exists>detections. predict_out e = Returns detections)
             \<and> (\<exists>result_img. plot_out e = Returns result_img) \<and> persist_out e = Done)"
proof (cases e rule: try_block_outcomes)
  case (save msg left)
  have "process e m file s =
          handle_exception e (Some (uploaded_filepath e file)) msg
            (s\<lparr>fs := (case left of None \<Rightarrow> fs s
                      | Some partial \<Rightarrow> (fs s)(uploaded_filepath e file \<mapsto> partial)),
               trace := trace s @ [FileSave (uploaded_filepath e file)]\<rparr>)"
    by (simp add: process_def try_block_save_fails [OF save])
  then show ?thesis
    using save
    by (intro exI [of _ 1])
       (simp add: handle_exception_trace handle_exception_response error_response_def)
next
  case (infer msg)
  have "process e m file s =
          handle_exception e (Some (uploaded_filepath e file)) msg
            (s\<lparr>fs := (fs s)(uploaded_filepath e file \<mapsto> stream file),
               trace := trace s @ [FileSave (uploaded_filepath e file),
                                   ModelPredict (uploaded_filepath e file)]\<rparr>)"
    by (simp add: process_def try_block_predict_raises [OF infer])
  then show ?thesis
    using infer
    by (intro exI [of _ 2])
       (simp add: handle_exception_trace handle_exception_response error_response_def)
next
  case (render msg detections)
  have "process e m file s =
          handle_exception e (Some (uploaded_filepath e file)) msg
            (s\<lparr>fs := (fs s)(uploaded_filepath e file \<mapsto> stream file),
               trace := trace s @ [FileSave (uploaded_filepath e file),
                                   ModelPredict (uploaded_filepath e file), Plot]\<rparr>)"
    by (simp add: process_def try_block_plot_raises [OF render])
  then show ?thesis
    using render
    by (intro exI [of _ 3])
       (simp add: handle_exception_trace handle_exception_response error_response_def)
next
  case (persist msg left detections result_img)
  have "process e m file s =
          handle_exception e (Some (uploaded_filepath e file)) msg
            (s\<lparr>fs := (case left of
                        None \<Rightarrow> (fs s)(uploaded_filepath e file \<mapsto> stream file)
                      | Some partial \<Rightarrow>
                          (fs s)(uploaded_filepath e file \<mapsto> stream file,
                                 result_path e file \<mapsto> partial)),
               trace := trace s @ [FileSave (uploaded_filepath e file),
                                   ModelPredict (uploaded_filepath e file), Plot,
                                   ImageSave (result_path e file)]\<rparr>)"
    by (simp add: process_def try_block_persist_fails [OF persist])
  then show ?thesis
    using persist
    by (intro exI [of _ 4])
       (simp add: handle_exception_trace handle_exception_response error_response_def)
next
  case (success detections result_img)
  then show ?thesis
    by (intro exI [of _ 4]) (simp add: process_def try_block_success [OF success])
qed


lemma predict_cases:
  obtains (no_model) "model s = None"
      "predict e req s =
         (error_response ''Deep learning model not loaded. Please check server logs for details.'' 500, s)"
  | (absent) "files req ''image'' = None"
      "predict e req s = (error_response ''No image file part in the request.'' 400, s)"
  | (empty) upload where "files req ''image'' = Some upload"
      "predict e req s = (error_response ''No selected file.'' 400, s)"
  | (unsupported) upload where "files req ''image'' = Some upload"
      "predict e req s =
         (error_response (''Invalid file type. Supported formats: '' @ join '', '' (ext_iter e)) 400, s)"
  | (accepted) m upload where "model s = Some m" "files req ''image'' = Some upload"
      "file_extension (filename upload) \<in> allowed_extensions"
      "predict e req s = process e m upload s"
proof (cases "model s")
  case None
  then show ?thesis using no_model predict_no_model by blast
next
  case loaded: (Some m)
  show ?thesis
  proof (cases "files req ''image''")
    case None
    with loaded have "predict e req s = (error_response ''No image file part in the request.'' 400, s)"
      by (simp add: predict_def)
    with None show ?thesis by (rule absent)
  next
    case (Some upload)
    show ?thesis
    proof (cases "filename upload = []")
      case True
      with loaded Some have "predict e req s = (error_response ''No selected file.'' 400, s)"
        by (simp add: predict_def)
      with Some show ?thesis by (rule empty)
    next
      case False
      show ?thesis
      proof (cases "file_extension (filename upload) \<in> allowed_extensions")
        case True
        with loaded Some have "predict e req s = process e m upload s"
          by (intro predict_accepted)
        with loaded Some True show ?thesis by (rule accepted)
      next
        case bad: False
        with loaded Some False have "predict e req s =
         (error_response (''Invalid file type. Supported formats: '' @ join '', '' (ext_iter e)) 400, s)"
          by (simp add: predict_def)
        with Some show ?thesis by (rule unsupported)
      qed
    qed
  qed
qed

lemma error_response_shape:
  "snd (error_response msg code) = code"
  "fst (error_response msg code) = Json [(''error'', JStr msg), (''status'', JStr ''error'')]"
  by (simp_all add: error_response_def)

lemma predict_status: "snd (fst (predict e req s)) \<in> {200, 400, 500}"
proof (cases e req s rule: predict_cases)
  case (accepted m upload)
  then show ?thesis using process_status [of e m upload s] by auto
qed (simp_all add: error_response_shape)

lemma predict_error_body:
  assumes "snd (fst (predict e req s)) \<noteq> 200"
  shows "\<exists>msg. fst (fst (predict e req s)) =
           Json [(''error'', JStr msg), (''status'', JStr ''error'')]"
proof (cases e req s rule: predict_cases)
  case (accepted m upload)
  show ?thesis
  proof (cases e m upload s rule: process_response)
    case (failed msg)
    then show ?thesis by (simp add: accepted(4) error_response_shape)
  next
    case (succeeded fields)
    with assms show ?thesis by (simp add: accepted(4))
  qed
qed (simp_all add: error_response_shape)

lemma predict_success_steps:
  assumes "snd (fst (predict e req s)) = 200"
  shows "save_out e = Done \<and> (\<exists>detections. predict_out e = Returns detections)
        \<and> (\<exists>result_img. plot_out e = Returns result_img) \<and> persist_out e = Done"
proof (cases e req s rule: predict_cases)
  case (accepted m upload)
  from process_calls [of e m upload s] assms show ?thesis
    unfolding accepted(4) by blast
qed (use assms in \<open>simp_all add: error_response_shape\<close>)

lemma predict_calls:
  assumes "files req ''image'' = Some upload"
  shows "\<exists>k. (trace (snd (predict e req s)) =
                 trace s @ take k [FileSave (uploaded_filepath e upload),
                                   ModelPredict (uploaded_filepath e upload), Plot,
                                   ImageSave (result_path e upload)]
              \<or> trace (snd (predict e req s)) =
                 trace s @ take k [FileSave (uploaded_filepath e upload),
                                   ModelPredict (uploaded_filepath e upload), Plot,
                                   ImageSave (result_path e upload)]
                         @ [Remove (uploaded_filepath e upload)])
            \<and> (save_out e \<noteq> Done \<longrightarrow> k \<le> 1)
            \<and> ((\<exists>msg. predict_out e = Raises msg) \<longrightarrow> k \<le> 2)
            \<and> ((\<exists>msg. plot_out e = Raises msg) \<longrightarrow> k \<le> 3)"
proof (cases e req s rule: predict_cases)
  case (accepted m other)
  with assms have "other = upload" by simp
  with process_calls [of e m upload s] show ?thesis
    unfolding accepted(4) by blast
qed (intro exI [of _ 0], simp)+

lemma predict_absent_calls:
  assumes "files req ''image'' = None"
  shows "trace (snd (predict e req s)) = trace s"
  by (cases e req s rule: predict_cases) (use assms in simp_all)

text \<open>
  Claim C8. Every response of \<open>POST /predict\<close> has status 200, 400 or 500, and every
  response that is not the success has a body of exactly two fields, an \<open>error\<close> message
  and \<open>status\<close> equal to \<open>error\<close>. A failure ends the request: the success is returned
  only when every step succeeded, and the calls made for one request are the steps
  \<open>file.save\<close>, \<open>model.predict\<close>, \<open>plot\<close> and the save of the result image, each at most
  once and in this order, cut off at the step that failed, followed by at most one
  \<open>os.remove\<close> of the upload. Nothing is called again.
\<close>

theorem predict_failure_responses:
  "snd (fst (predict e req s)) \<in> {200, 400, 500}
   \<and> (snd (fst (predict e req s)) \<noteq> 200 \<longrightarrow>
        (\<exists>msg. fst (fst (predict e req s)) =
                 Json [(''error'', JStr msg), (''status'', JStr ''error'')]))
   \<and> (snd (fst (predict e req s)) = 200 \<longrightarrow>
        save_out e = Done \<and> (\<exists>detections. predict_out e = Returns detections)
        \<and> (\<exists>result_img. plot_out e = Returns result_img) \<and> persist_out e = Done)
   \<and> (files req ''image'' = None \<longrightarrow> trace (snd (predict e req s)) = trace s)
   \<and> (\<forall>file. files req ''image'' = Some file \<longrightarrow>
        (\<exists>k. (trace (snd (predict e req s)) =
                 trace s @ take k [FileSave (uploaded_filepath e file),
                                   ModelPredict (uploaded_filepath e file), Plot,
                                   ImageSave (result_path e file)]
              \<or> trace (snd (predict e req s)) =
                 trace s @ take k [FileSave (uploaded_filepath e file),
                                   ModelPredict (uploaded_filepath e file), Plot,
                                   ImageSave (result_path e file)]
                         @ [Remove (uploaded_filepath e file)])
            \<and> (save_out e \<noteq> Done \<longrightarrow> k \<le> 1)
            \<and> ((\<exists>msg. predict_out e = Raises msg) \<longrightarrow> k \<le> 2)
            \<and> ((\<exists>msg. plot_out e = Raises msg) \<longrightarrow> k \<le> 3)))"
  using predict_status [of e req s] predict_error_body [of e req s]
    predict_success_steps [of e req s] predict_absent_calls [of req e s]
    predict_calls [of req _ e s]
  by (intro conjI impI allI) blast+


theorem predict_failure_responses_witness:
  "snd (fst (predict (sample_env\<lparr>persist_out := Fails ''No space left on device'' None\<rparr>)
                sample_request sample_server)) = 500
   \<and> (\<exists>msg. fst (fst (predict (sample_env\<lparr>persist_out := Fails ''No space left on device'' None\<rparr>)
                           sample_request sample_server)) =
              Json [(''error'', JStr msg), (''status'', JStr ''error'')])
   \<and> persist_out (sample_env\<lparr>persist_out := Fails ''No space left on device'' None\<rparr>) \<noteq> Done"
proof -
  let ?e = "sample_env\<lparr>persist_out := Fails ''No space left on device'' None\<rparr>"
  let ?r = "predict ?e sample_request sample_server"
  have steps: "save_out ?e = Done"
    "predict_out ?e = Returns (Some [\<lparr>cls = 0\<rparr>, \<lparr>cls = 5\<rparr>, \<lparr>cls = 0\<rparr>])"
    "plot_out ?e = Returns ''IMG''"
    "persist_out ?e = Fails ''No space left on device'' None"
    by (simp_all add: sample_env_def)
  have "?r = process ?e sample_model sample_file sample_server"
    using sample_loaded sample_part sample_file_allowed by (rule predict_accepted)
  then have status: "snd (fst ?r) = 500"
    using try_block_persist_fails [OF steps, of sample_model sample_file sample_server]
    by (simp add: process_def handle_exception_response error_response_def)
  then have "snd (fst ?r) \<noteq> 200" by simp
  with predict_failure_responses [of ?e sample_request sample_server]
  have "\<exists>msg. fst (fst ?r) = Json [(''error'', JStr msg), (''status'', JStr ''error'')]"
    by blast
  with status steps(4) show ?thesis by simp
qed

lemma accepted_split:
  assumes "file_extension (filename file) \<in> allowed_extensions"
  obtains stem ext where "filename file = stem @ ''.'' @ ext" "CHR ''.'' \<notin> set ext"
    "rsplit1 (CHR ''.'') (filename file) = [stem, ext]"
    "file_extension (filename file) = lower ext"
proof -
  have "CHR ''.'' \<in> set (filename file)" using assms by (rule allowed_has_dot)
  from rsplit1_parts [OF this] obtain stem ext where
    parts: "filename file = stem @ [CHR ''.''] @ ext" "CHR ''.'' \<notin> set ext"
      "rsplit1 (CHR ''.'') (filename file) = [stem, ext]"
    by blast
  moreover have "file_extension (filename file) = lower ext"
    using parts(3) \<open>CHR ''.'' \<in> set (filename file)\<close> by (simp add: file_extension_def)
  ultimately show ?thesis using that by simp
qed

lemma unique_id_hex:
  assumes "env_ok e"
  shows "length (unique_id e) = 8" and "set (unique_id e) \<subseteq> set ''0123456789abcdef''"
proof -
  have shape: "hex_shape (uuid4 e) = ''hhhhhhhh-hhhh-hhhh-hhhh-hhhhhhhhhhhh''"
    using assms by (simp add: env_ok_def)
  have "length (uuid4 e) = length (hex_shape (uuid4 e))" by (simp add: hex_shape_def)
  then have len: "length (uuid4 e) = 36" by (simp add: shape)
  then show "length (unique_id e) = 8" by (simp add: unique_id_def)
  have mapped: "map hex_class (uuid4 e) = ''hhhhhhhh-hhhh-hhhh-hhhh-hhhhhhhhhhhh''"
    using shape by (simp add: hex_shape_def)
  have "take 8 (map hex_class (uuid4 e)) = ''hhhhhhhh''"
    by (simp add: mapped)
  then have "map hex_class (unique_id e) = ''hhhhhhhh''"
    by (simp add: unique_id_def take_map)
  then have "hex_class ` set (unique_id e) = set ''hhhhhhhh''"
    by (metis list.set_map)
  then have "hex_class c = CHR ''h''" if "c \<in> set (unique_id e)" for c
    using that by auto
  then have "c \<in> set ''0123456789abcdef''" if "c \<in> set (unique_id e)" for c
    using that by (fastforce simp: hex_class_def split: if_splits)
  then show "set (unique_id e) \<subseteq> set ''0123456789abcdef''" by blast
qed

lemma result_filename_prefix: "result_filename e file = ''result_'' @ unique_filename e file"
  by (simp add: result_filename_def unique_filename_def)

lemma process_first_call:
  "\<exists>rest. trace (snd (process e m file s)) = trace s @ FileSave (uploaded_filepath e file) # rest"
proof (cases e rule: try_block_outcomes)
  case (save msg left)
  show ?thesis
    by (simp add: process_def try_block_save_fails [OF save] handle_exception_trace)
next
  case (infer msg)
  show ?thesis
    by (simp add: process_def try_block_predict_raises [OF infer] handle_exception_trace)
next
  case (render msg detections)
  show ?thesis
    by (simp add: process_def try_block_plot_raises [OF render] handle_exception_trace)
next
  case (persist msg left detections result_img)
  show ?thesis
    by (simp add: process_def try_block_persist_fails [OF persist] handle_exception_trace)
next
  case (success detections result_img)
  show ?thesis
    by (simp add: process_def try_block_success [OF success])
qed

section \<open>The allocated file names\<close>

lemma unique_filename_safe:
  assumes "env_ok e" and "file_extension (filename file) \<in> allowed_extensions"
  shows "set (unique_filename e file) \<subseteq> set safe_chars"
proof -
  from assms(2) obtain stem ext where parts: "rsplit1 (CHR ''.'') (filename file) = [stem, ext]"
    "file_extension (filename file) = lower ext"
    by (rule accepted_split)
  have "set (base_name e file) \<subseteq> set safe_chars"
    by (simp add: base_name_def secure_filename_safe)
  moreover have "set (timestamp e) \<subseteq> set safe_chars"
    by (simp add: timestamp_def str_int_safe)
  moreover have "set ''0123456789abcdef'' \<subseteq> set safe_chars"
    by (simp add: safe_chars_def lower_letters_def digit_chars_def)
  then have "set (unique_id e) \<subseteq> set safe_chars"
    using unique_id_hex(2) [OF assms(1)] by (rule subset_trans [rotated])
  moreover have "set lower_letters \<subseteq> set safe_chars"
    by (auto simp: safe_chars_def)
  then have "set (extension file) \<subseteq> set safe_chars"
    using allowed_extension_letters [OF assms(2)] parts
    by (simp add: extension_def)
  moreover have "CHR ''_'' \<in> set safe_chars" "CHR ''.'' \<in> set safe_chars"
    by (simp_all add: safe_chars_def)
  ultimately show ?thesis by (simp add: unique_filename_def)
qed

lemma slash_unsafe: "CHR ''/'' \<notin> set safe_chars"
  by (simp add: safe_chars_def upper_letters_def lower_letters_def digit_chars_def)

lemma process_success_result:
  assumes "snd (fst (process e m file s)) = 200"
  shows "\<exists>fields. fst (fst (process e m file s)) = Json fields
           \<and> map_of fields ''filename'' = Some (JStr (unique_filename e file))
           \<and> map_of fields ''uploaded_image_url'' =
               Some (JStr (''/static/uploads/'' @ unique_filename e file))
           \<and> map_of fields ''result_image_url'' =
               Some (JStr (''/static/results/'' @ result_filename e file))
           \<and> fs (snd (process e m file s)) (''static/uploads/'' @ unique_filename e file) \<noteq> None
           \<and> fs (snd (process e m file s)) (''static/results/'' @ result_filename e file) \<noteq> None"
proof (cases e rule: try_block_outcomes)
  case (save msg left)
  with assms show ?thesis
    by (simp add: process_def try_block_save_fails handle_exception_response error_response_def)
next
  case (infer msg)
  with assms show ?thesis
    by (simp add: process_def try_block_predict_raises handle_exception_response error_response_def)
next
  case (render msg detections)
  with assms show ?thesis
    by (simp add: process_def try_block_plot_raises handle_exception_response error_response_def)
next
  case (persist msg left detections result_img)
  with assms show ?thesis
    by (simp add: process_def try_block_persist_fails handle_exception_response error_response_def)
next
  case (success detections result_img)
  show ?thesis
    by (simp add: process_def try_block_success [OF success] url_for_static_def
        uploaded_filepath_def result_path_def path_join_def UPLOAD_FOLDER_def RESULT_FOLDER_def)
qed

text \<open>
  Claim C1, as amended. For every accepted upload (model loaded, field present, allowed
  extension) the name is split at its last dot into a stem and an extension, and the
  allocated name is the sanitized stem, an underscore, the decimal Unix time, an
  underscore, the first eight characters of the UUID text (eight hexadecimal digits), a
  dot, and the extension in lower case (equal to the original one up to case). The
  sanitized stem holds only letters, digits, underscore, dot and hyphen, so no path
  separator, and it keeps every letter and digit of the stem as normalised to ASCII, in
  order: the names of directories in the stem are not removed. The result name is
  \<open>result_\<close> followed by the allocated name. The upload is saved under the allocated name
  in the uploads folder, and a success response reports the allocated name and the two
  URLs built from it, both naming files on disk.
\<close>

theorem unique_filename_format:
  assumes "env_ok e" and "model s = Some m" and "files req ''image'' = Some file"
    and "spec_extension_allowed (filename file)"
  shows "\<exists>stem ext.
           filename file = stem @ ''.'' @ ext \<and> CHR ''.'' \<notin> set ext
           \<and> unique_filename e file =
               secure_filename (nfkd_ascii e) stem @ ''_'' @ str_int (time_now e) @ ''_''
                 @ take 8 (uuid4 e) @ ''.'' @ lower ext
           \<and> spec_read_int (str_int (time_now e)) = time_now e
           \<and> length (take 8 (uuid4 e)) = 8
           \<and> set (take 8 (uuid4 e)) \<subseteq> set ''0123456789abcdef''
           \<and> lower ext \<in> {''png'', ''jpg'', ''jpeg'', ''gif'', ''bmp'', ''tiff'', ''webp''}
           \<and> spec_equal_ignoring_case ext (lower ext)
           \<and> set (secure_filename (nfkd_ascii e) stem) \<subseteq> set safe_chars
           \<and> filter spec_alnum (secure_filename (nfkd_ascii e) stem) =
               filter spec_alnum (nfkd_ascii e stem)
           \<and> (list_all is_ascii stem \<longrightarrow>
                filter spec_alnum (secure_filename (nfkd_ascii e) stem) = filter spec_alnum stem)
           \<and> set (unique_filename e file) \<subseteq> set safe_chars
           \<and> CHR ''/'' \<notin> set (unique_filename e file)
           \<and> result_filename e file = ''result_'' @ unique_filename e file
           \<and> (\<exists>rest. trace (snd (predict e req s)) =
                  trace s @ FileSave (''static/uploads/'' @ unique_filename e file) # rest)
           \<and> (snd (fst (predict e req s)) = 200 \<longrightarrow>
                (\<exists>fields. fst (fst (predict e req s)) = Json fields
                   \<and> map_of fields ''filename'' = Some (JStr (unique_filename e file))
                   \<and> map_of fields ''uploaded_image_url'' =
                       Some (JStr (''/static/uploads/'' @ unique_filename e file))
                   \<and> map_of fields ''result_image_url'' =
                       Some (JStr (''/static/results/result_'' @ unique_filename e file))
                   \<and> fs (snd (predict e req s)) (''static/uploads/'' @ unique_filename e file) \<noteq> None
                   \<and> fs (snd (predict e req s))
                        (''static/results/result_'' @ unique_filename e file) \<noteq> None))"
proof -
  have allowed: "file_extension (filename file) \<in> allowed_extensions"
    using assms(4) by (simp add: allowed_extension_spec)
  then obtain stem ext where
    parts: "filename file = stem @ ''.'' @ ext" "CHR ''.'' \<notin> set ext"
      "rsplit1 (CHR ''.'') (filename file) = [stem, ext]"
      "file_extension (filename file) = lower ext"
    by (rule accepted_split)
  have name: "unique_filename e file =
               secure_filename (nfkd_ascii e) stem @ ''_'' @ str_int (time_now e) @ ''_''
                 @ take 8 (uuid4 e) @ ''.'' @ lower ext"
    by (simp add: unique_filename_def base_name_def timestamp_def unique_id_def extension_def parts(3))
  have time: "spec_read_int (str_int (time_now e)) = time_now e"
    by (rule spec_read_int_str_int)
  have token: "length (take 8 (uuid4 e)) = 8" "set (take 8 (uuid4 e)) \<subseteq> set ''0123456789abcdef''"
    using unique_id_hex [OF assms(1)] by (simp_all add: unique_id_def)
  have ext: "lower ext \<in> {''png'', ''jpg'', ''jpeg'', ''gif'', ''bmp'', ''tiff'', ''webp''}"
    using allowed parts(4) by (simp add: allowed_extensions_def)
  have "set (lower ext) \<subseteq> set lower_letters"
    using allowed parts(4) allowed_extension_letters by simp
  then have same: "spec_equal_ignoring_case ext (lower ext)"
    using lower_equal_ignoring_case [of "lower ext" ext] by simp
  have kept: "filter spec_alnum (secure_filename (nfkd_ascii e) stem) =
               filter spec_alnum (nfkd_ascii e stem)"
    by (rule secure_filename_keeps_alnum)
  have kept_ascii: "list_all is_ascii stem \<longrightarrow>
      filter spec_alnum (secure_filename (nfkd_ascii e) stem) = filter spec_alnum stem"
    using assms(1) kept by (simp add: env_ok_def)
  have safe: "set (unique_filename e file) \<subseteq> set safe_chars"
    using assms(1) allowed by (rule unique_filename_safe)
  then have no_slash: "CHR ''/'' \<notin> set (unique_filename e file)"
    using slash_unsafe by blast
  have run: "predict e req s = process e m file s"
    using assms(2,3) allowed by (rule predict_accepted)
  have saved: "\<exists>rest. trace (snd (predict e req s)) =
                  trace s @ FileSave (''static/uploads/'' @ unique_filename e file) # rest"
    using process_first_call [of e m "file" s]
    by (simp add: run uploaded_filepath_def path_join_def UPLOAD_FOLDER_def)
  have reported: "snd (fst (predict e req s)) = 200 \<longrightarrow>
                (\<exists>fields. fst (fst (predict e req s)) = Json fields
                   \<and> map_of fields ''filename'' = Some (JStr (unique_filename e file))
                   \<and> map_of fields ''uploaded_image_url'' =
                       Some (JStr (''/static/uploads/'' @ unique_filename e file))
                   \<and> map_of fields ''result_image_url'' =
                       Some (JStr (''/static/results/result_'' @ unique_filename e file))
                   \<and> fs (snd (predict e req s)) (''static/uploads/'' @ unique_filename e file) \<noteq> None
                   \<and> fs (snd (predict e req s))
                        (''static/results/result_'' @ unique_filename e file) \<noteq> None)"
    using process_success_result [of e m "file" s]
    by (simp add: run result_filename_prefix)
  have prefix: "result_filename e file = ''result_'' @ unique_filename e file"
    by (rule result_filename_prefix)
  have safe_base: "set (secure_filename (nfkd_ascii e) stem) \<subseteq> set safe_chars"
    by (rule secure_filename_safe)
  show ?thesis
    by (intro exI [of _ stem] exI [of _ ext] conjI)
       (fact parts(1) parts(2) name time token ext same safe_base kept kept_ascii safe no_slash
          prefix saved reported)+
qed

lemma sample_split: "rsplit1 (CHR ''.'') (filename sample_file) = [''my cat'', ''JPG'']"
  by (simp add: sample_file_def rsplit1_def)

lemma sample_pieces:
  "secure_filename (nfkd_ascii sample_env) ''my cat'' = ''my_cat''"
  "str_int (time_now sample_env) = ''1700000000''"
  "take 8 (uuid4 sample_env) = ''3f2a9c1e''"
  "lower ''JPG'' = ''jpg''"
  by (simp_all add: sample_env_def secure_filename_def strip_def ascii_strip_def split_def
      replace_def is_ascii_def is_space_def safe_chars_def upper_letters_def
      lower_letters_def digit_chars_def lower_def lower_char_def str_int_def str_nat.simps
      digit_char_def)

theorem unique_filename_format_witness:
  "env_ok sample_env \<and> model sample_server = Some sample_model
   \<and> files sample_request ''image'' = Some sample_file
   \<and> spec_extension_allowed (filename sample_file)
   \<and> filename sample_file = ''my cat.JPG''
   \<and> unique_filename sample_env sample_file = ''my_cat_1700000000_3f2a9c1e.jpg''
   \<and> result_filename sample_env sample_file = ''result_my_cat_1700000000_3f2a9c1e.jpg''
   \<and> CHR ''/'' \<notin> set (unique_filename sample_env sample_file)"
proof -
  have accepted: "spec_extension_allowed (filename sample_file)"
    using sample_file_allowed by (simp add: allowed_extension_spec)
  from unique_filename_format [OF sample_env_ok sample_loaded sample_part accepted]
  obtain stem ext where
    parts: "filename sample_file = stem @ ''.'' @ ext" "CHR ''.'' \<notin> set ext"
    and name: "unique_filename sample_env sample_file =
               secure_filename (nfkd_ascii sample_env) stem @ ''_''
                 @ str_int (time_now sample_env) @ ''_''
                 @ take 8 (uuid4 sample_env) @ ''.'' @ lower ext"
    and rest: "CHR ''/'' \<notin> set (unique_filename sample_env sample_file)"
      "result_filename sample_env sample_file = ''result_'' @ unique_filename sample_env sample_file"
    by blast
  have "rsplit1 (CHR ''.'') (filename sample_file) = [stem, ext]"
    using parts by (intro rsplit1_unique) simp_all
  then have "stem = ''my cat''" "ext = ''JPG''" using sample_split by simp_all
  with name have "unique_filename sample_env sample_file = ''my_cat_1700000000_3f2a9c1e.jpg''"
    by (simp add: sample_pieces)
  moreover have "filename sample_file = ''my cat.JPG''" by (simp add: sample_file_def)
  ultimately show ?thesis
    using rest sample_env_ok sample_loaded sample_part accepted by simp
qed

text \<open>
  The claim as it is written strips the directory components of the name and puts the
  original extension after the dot. For an upload named \<open>holiday/photo.JPG\<close>, which is
  accepted, that is \<open>photo_1700000000_3f2a9c1e.JPG\<close>. The allocated name keeps the
  directory name, joined to the rest by an underscore, and ends in \<open>.jpg\<close>; it differs
  from the claimed one in each of the two places.
\<close>

theorem unique_filename_as_claimed_counterexample:
  "file_extension (filename \<lparr>filename = ''holiday/photo.JPG'', stream = ''abcd''\<rparr>)
     \<in> allowed_extensions
   \<and> rsplit1 (CHR ''.'') ''holiday/photo.JPG'' = [''holiday/photo'', ''JPG'']
   \<and> list_all is_ascii ''holiday/photo''
   \<and> str_int (time_now sample_env) = ''1700000000''
   \<and> take 8 (uuid4 sample_env) = ''3f2a9c1e''
   \<and> unique_filename sample_env \<lparr>filename = ''holiday/photo.JPG'', stream = ''abcd''\<rparr> =
       ''holiday_photo_1700000000_3f2a9c1e.jpg''
   \<and> unique_filename sample_env \<lparr>filename = ''holiday/photo.JPG'', stream = ''abcd''\<rparr> \<noteq>
       ''photo_1700000000_3f2a9c1e.JPG''
   \<and> unique_filename sample_env \<lparr>filename = ''holiday/photo.JPG'', stream = ''abcd''\<rparr> \<noteq>
       ''photo_1700000000_3f2a9c1e.jpg''
   \<and> unique_filename sample_env \<lparr>filename = ''holiday/photo.JPG'', stream = ''abcd''\<rparr> \<noteq>
       ''holiday_photo_1700000000_3f2a9c1e.JPG''"
proof -
  have split: "rsplit1 (CHR ''.'') ''holiday/photo.JPG'' = [''holiday/photo'', ''JPG'']"
    by (simp add: rsplit1_def)
  have low: "lower ''JPG'' = ''jpg''"
    by (simp add: lower_def lower_char_def upper_letters_def lower_letters_def)
  have allowed: "file_extension (filename \<lparr>filename = ''holiday/photo.JPG'', stream = ''abcd''\<rparr>)
      \<in> allowed_extensions"
    by (simp add: file_extension_def split low allowed_extensions_def)
  have ascii: "list_all is_ascii ''holiday/photo''"
    by (simp add: is_ascii_def)
  have base: "secure_filename (nfkd_ascii sample_env) ''holiday/photo'' = ''holiday_photo''"
    by (simp add: sample_env_def secure_filename_def strip_def ascii_strip_def split_def
      replace_def is_ascii_def is_space_def safe_chars_def upper_letters_def
      lower_letters_def digit_chars_def)
  have name: "unique_filename sample_env \<lparr>filename = ''holiday/photo.JPG'', stream = ''abcd''\<rparr> =
       ''holiday_photo_1700000000_3f2a9c1e.jpg''"
    by (simp add: unique_filename_def base_name_def timestamp_def unique_id_def extension_def
        split low base sample_pieces)
  show ?thesis
    using split allowed ascii name by (simp add: sample_pieces)
qed

text \<open>
  Claim C10. For every accepted upload, the extension of the allocated name and of the
  result name (the text after the last dot of each) is the extension of the original
  name in lower case. So when the original extension has an upper-case letter, the file
  is stored under a name whose extension is not the original one.
\<close>

theorem stored_extension_lowercased:
  assumes "model s = Some m" and "files req ''image'' = Some file"
    and "file_extension (filename file) \<in> allowed_extensions"
  shows "last (rsplit1 (CHR ''.'') (unique_filename e file)) =
           lower (last (rsplit1 (CHR ''.'') (filename file)))
       \<and> last (rsplit1 (CHR ''.'') (result_filename e file)) =
           lower (last (rsplit1 (CHR ''.'') (filename file)))
       \<and> ((\<exists>c \<in> set (last (rsplit1 (CHR ''.'') (filename file))). c \<in> set upper_letters) \<longrightarrow>
            last (rsplit1 (CHR ''.'') (unique_filename e file)) \<noteq>
              last (rsplit1 (CHR ''.'') (filename file))
            \<and> last (rsplit1 (CHR ''.'') (result_filename e file)) \<noteq>
              last (rsplit1 (CHR ''.'') (filename file)))
       \<and> (\<exists>rest. trace (snd (predict e req s)) =
              trace s @ FileSave (''static/uploads/'' @ unique_filename e file) # rest)"
proof -
  from assms(3) obtain stem ext where
    parts: "CHR ''.'' \<notin> set ext" "rsplit1 (CHR ''.'') (filename file) = [stem, ext]"
    by (rule accepted_split)
  let ?front = "base_name e file @ ''_'' @ timestamp e @ ''_'' @ unique_id e"
  have no_dot: "CHR ''.'' \<notin> set (lower ext)"
    using parts(1) by (simp add: dot_in_lower)
  have "unique_filename e file = ?front @ [CHR ''.''] @ lower ext"
    by (simp add: unique_filename_def extension_def parts(2))
  then have up: "rsplit1 (CHR ''.'') (unique_filename e file) = [?front, lower ext]"
    using no_dot by (rule rsplit1_unique)
  have "result_filename e file = (''result_'' @ ?front) @ [CHR ''.''] @ lower ext"
    by (simp add: result_filename_def extension_def parts(2))
  then have res: "rsplit1 (CHR ''.'') (result_filename e file) = [''result_'' @ ?front, lower ext]"
    using no_dot by (rule rsplit1_unique)
  have changed: "lower ext \<noteq> ext" if "\<exists>c \<in> set ext. c \<in> set upper_letters"
    using that by (rule lower_changes_upper)
  have run: "predict e req s = process e m file s"
    using assms by (rule predict_accepted)
  have saved: "\<exists>rest. trace (snd (predict e req s)) =
                  trace s @ FileSave (''static/uploads/'' @ unique_filename e file) # rest"
    using process_first_call [of e m "file" s]
    by (simp add: run uploaded_filepath_def path_join_def UPLOAD_FOLDER_def)
  show ?thesis
    using changed saved by (simp add: up res parts(2))
qed

theorem stored_extension_lowercased_witness:
  "model sample_server = Some sample_model
   \<and> files sample_request ''image'' = Some sample_file
   \<and> file_extension (filename sample_file) \<in> allowed_extensions
   \<and> last (rsplit1 (CHR ''.'') (filename sample_file)) = ''JPG''
   \<and> CHR ''J'' \<in> set upper_letters
   \<and> last (rsplit1 (CHR ''.'') (unique_filename sample_env sample_file)) = ''jpg''
   \<and> last (rsplit1 (CHR ''.'') (result_filename sample_env sample_file)) = ''jpg''
   \<and> last (rsplit1 (CHR ''.'') (unique_filename sample_env sample_file)) \<noteq>
       last (rsplit1 (CHR ''.'') (filename sample_file))"
proof -
  have original: "last (rsplit1 (CHR ''.'') (filename sample_file)) = ''JPG''"
    by (simp add: sample_split)
  have upper: "CHR ''J'' \<in> set upper_letters" by (simp add: upper_letters_def)
  then have "\<exists>c \<in> set (last (rsplit1 (CHR ''.'') (filename sample_file))). c \<in> set upper_letters"
    by (simp add: original)
  with stored_extension_lowercased
    [OF sample_loaded sample_part sample_file_allowed, of sample_env]
  have "last (rsplit1 (CHR ''.'') (unique_filename sample_env sample_file)) =
           lower (last (rsplit1 (CHR ''.'') (filename sample_file)))"
    and "last (rsplit1 (CHR ''.'') (result_filename sample_env sample_file)) =
           lower (last (rsplit1 (CHR ''.'') (filename sample_file)))"
    and "last (rsplit1 (CHR ''.'') (unique_filename sample_env sample_file)) \<noteq>
              last (rsplit1 (CHR ''.'') (filename sample_file))"
    by blast+
  then show ?thesis
    using sample_loaded sample_part sample_file_allowed upper
    by (simp add: original sample_pieces)
qed

end
